theory Spec2Isabelle
  imports Complex_Main "HOL-Library.Sublist"
begin

section \<open>Data model\<close>

text \<open>
  The two ingestion modules (\<^verbatim>\<open>src/lib/ingestion.ts\<close>, the cloud pipeline, and
  \<^verbatim>\<open>src/lib/ingestion_xenova.ts\<close>, the local pipeline) and the chat route handler are
  embedded below. Strings are \<^typ>\<open>string\<close>; an exception is represented by its
  \<^verbatim>\<open>message\<close>; an awaited call either returns, throws, or never settles.
\<close>

type_synonym embedding = "real list"

record metadata =
  source :: string
  chunk_index :: nat

record upsert_args =
  ids :: "string list"
  embeddings :: "embedding list"
  documents :: "string list"
  metadatas :: "metadata list"

record row =
  row_embedding :: embedding
  row_document :: string
  row_metadata :: metadata

type_synonym collection = "string \<rightharpoonup> row"

record ingest_result =
  success :: bool
  count :: nat
  error :: "string option"

datatype 'a outcome = Returns 'a | Throws string | Never

record content_embedding =
  embedding_values :: embedding

record splitter_config =
  chunkSize :: nat
  chunkOverlap :: nat
  separators :: "string list"

text \<open>What indexing row \<open>i\<close> of the tensor and reading its \<^verbatim>\<open>data\<close> gives: the vector, or an exception.\<close>

type_synonym tensor = "nat \<Rightarrow> string + embedding"

type_synonym feature_extractor = "string list \<Rightarrow> string + tensor"

datatype pdf_module =
  LoadFailed
  | NotAFunction
  | PdfFunction "string \<Rightarrow> string + string"

text \<open>
  The collaborators that are not part of the repository: the vector store client, the file
  system and path helpers of the runtime, the text splitter, the PDF parsers, the embedding
  API and the local model. Each is a field, so every theorem holds for every behaviour of
  every collaborator unless a hypothesis restricts it.
\<close>

record env =
  CHROMA_HOST :: string
  DOCUMENTS_DIR :: string
  chroma_getOrCreateCollection :: "string \<Rightarrow> string option"
  upsert :: "collection \<Rightarrow> upsert_args \<Rightarrow> string option \<times> collection"
  readdir :: "string \<Rightarrow> string + string list"
  path_join :: "string \<Rightarrow> string \<Rightarrow> string"
  path_basename :: "string \<Rightarrow> string"
  splitText :: "splitter_config \<Rightarrow> string \<Rightarrow> string list"
  loadPDF :: "string \<Rightarrow> string + string list list list"
  decodeURIComponent :: "string \<Rightarrow> string option"
  embedContent :: "string \<Rightarrow> string list list \<Rightarrow> string + content_embedding list option"
  readFile :: "string \<Rightarrow> string + string"
  pdf_parse :: pdf_module
  pipeline :: "string \<Rightarrow> string \<Rightarrow> string + feature_extractor"

text \<open>
  The mutable world of a run: the rows of the collection, the list of the arguments of every
  \<^verbatim>\<open>collection.upsert\<close> call made so far, the \<^verbatim>\<open>console.warn\<close> lines, and the module
  variable \<^verbatim>\<open>extractor\<close> of the local pipeline.
\<close>

record state =
  store :: collection
  calls :: "upsert_args list"
  warnings :: "string list"
  extractor :: "feature_extractor option"

section \<open>Helpers of the runtime\<close>

definition endsWith :: "string \<Rightarrow> string \<Rightarrow> bool" where
  "endsWith s searchString =
     (length searchString \<le> length s \<and> drop (length s - length searchString) s = searchString)"

fun join :: "string \<Rightarrow> string list \<Rightarrow> string" where
  "join sep [] = []"
| "join sep [x] = x"
| "join sep (x # y # ys) = x @ sep @ join sep (y # ys)"

definition digit_char :: "nat \<Rightarrow> char" where
  "digit_char d = ''0123456789'' ! d"

text \<open>The decimal rendering of a loop index inside a template literal.\<close>

function string_of_nat :: "nat \<Rightarrow> string" where
  "string_of_nat n =
     (if n < 10 then [digit_char n] else string_of_nat (n div 10) @ [digit_char (n mod 10)])"
  by pat_completeness auto
termination
  by (relation "measure id") auto

declare string_of_nat.simps [simp del]

definition is_whitespace :: "char \<Rightarrow> bool" where
  "is_whitespace c = (of_char c \<in> {9, 10, 11, 12, 13, 32, 160 :: nat})"

definition trim :: "string \<Rightarrow> string" where
  "trim s = rev (dropWhile is_whitespace (rev (dropWhile is_whitespace s)))"

section \<open>Shared configuration\<close>

definition COLLECTION_NAME :: string where
  "COLLECTION_NAME = ''kummatty_policies''"

definition COLLECTION_NAME_XENOVA :: string where
  "COLLECTION_NAME_XENOVA = ''kummatty_policies_xenova''"

definition EMBEDDING_MODEL :: string where
  "EMBEDDING_MODEL = ''models/embedding-001''"

definition XENOVA_EMBEDDING_MODEL :: string where
  "XENOVA_EMBEDDING_MODEL = ''Xenova/all-MiniLM-L6-v2''"

definition splitter :: splitter_config where
  "splitter = \<lparr>chunkSize = 1000, chunkOverlap = 200,
     separators = [[CHR 0x0A, CHR 0x0A], [CHR 0x0A], '' '', '''']\<rparr>"

definition getOrCreateCollection :: "env \<Rightarrow> string \<Rightarrow> string + unit" where
  "getOrCreateCollection e name =
     (case chroma_getOrCreateCollection e name of
        Some err \<Rightarrow>
          Inl (''Failed to connect to ChromaDB. Ensure the service is running at '' @ CHROMA_HOST e)
      | None \<Rightarrow> Inr ())"

definition failure :: "string \<Rightarrow> ingest_result" where
  "failure msg = \<lparr>success = False, count = 0, error = Some msg\<rparr>"

definition no_pdf_files :: "env \<Rightarrow> ingest_result" where
  "no_pdf_files e = \<lparr>success = False, count = 0,
     error = Some (''No PDF files found in the directory: '' @ DOCUMENTS_DIR e)\<rparr>"

text \<open>The loop that fills \<^verbatim>\<open>ids\<close> and \<^verbatim>\<open>metadatas\<close>, the same in both modules.\<close>

function build_ids ::
  "string \<Rightarrow> nat \<Rightarrow> nat \<Rightarrow> string list \<times> metadata list \<Rightarrow> string list \<times> metadata list" where
  "build_ids fileName n i (is, ms) =
     (if i < n
      then build_ids fileName n (Suc i)
             (is @ [fileName @ ''-'' @ string_of_nat i],
              ms @ [\<lparr>source = fileName, chunk_index = i\<rparr>])
      else (is, ms))"
  by pat_completeness auto
termination
  by (relation "measure (\<lambda>(fileName, n, i, acc). n - i)") auto

declare build_ids.simps [simp del]

section \<open>The cloud pipeline\<close>

fun pages_text :: "env \<Rightarrow> string list list list \<Rightarrow> string \<Rightarrow> string option" where
  "pages_text e [] fullText = Some fullText"
| "pages_text e (page # pages) fullText =
     (case those (map (decodeURIComponent e) (concat page)) of
        None \<Rightarrow> None
      | Some runs \<Rightarrow> pages_text e pages (fullText @ join '' '' runs @ [CHR 0x0A, CHR 0x0A]))"

text \<open>
  The promise resolves from the \<^verbatim>\<open>pdfParser_dataReady\<close> listener and rejects from the
  \<^verbatim>\<open>pdfParser_dataError\<close> listener. An exception of \<^verbatim>\<open>decodeURIComponent\<close> inside the
  listener settles it in neither way.
\<close>

definition extractTextFromPdf :: "env \<Rightarrow> string \<Rightarrow> string outcome" where
  "extractTextFromPdf e filePath =
     (case loadPDF e filePath of
        Inl parserError \<Rightarrow> Throws (''PDF parsing error: '' @ parserError)
      | Inr pages \<Rightarrow>
          (case pages_text e pages [] of None \<Rightarrow> Never | Some fullText \<Rightarrow> Returns fullText))"

definition chunkText :: "env \<Rightarrow> string \<Rightarrow> string list" where
  "chunkText e txt = splitText e splitter txt"

definition embeddings_missing :: string where
  "embeddings_missing =
     ''Failed to generate embeddings. The API response did not contain the expected 'embeddings' data.''"

definition generateEmbeddings :: "env \<Rightarrow> string list \<Rightarrow> string + embedding list" where
  "generateEmbeddings e chunks =
     (case embedContent e EMBEDDING_MODEL (map (\<lambda>t. [t]) chunks) of
        Inl err \<Rightarrow> Inl err
      | Inr None \<Rightarrow> Inl embeddings_missing
      | Inr (Some es) \<Rightarrow>
          if length es = 0 then Inl embeddings_missing else Inr (map embedding_values es))"

fun ingest_loop :: "env \<Rightarrow> string list \<Rightarrow> state \<Rightarrow> nat \<Rightarrow> nat outcome \<times> state" where
  "ingest_loop e [] st chunkCount = (Returns chunkCount, st)"
| "ingest_loop e (fileName # files) st chunkCount =
     (case extractTextFromPdf e (path_join e (DOCUMENTS_DIR e) fileName) of
        Never \<Rightarrow> (Never, st)
      | Throws err \<Rightarrow> (Throws err, st)
      | Returns fullText \<Rightarrow>
          (let chunks = chunkText e fullText in
           case generateEmbeddings e chunks of
             Inl err \<Rightarrow> (Throws err, st)
           | Inr embs \<Rightarrow>
               (let (is, ms) = build_ids fileName (length chunks) 0 ([], []);
                    args = \<lparr>ids = is, embeddings = embs, documents = chunks, metadatas = ms\<rparr>;
                    st1 = st\<lparr>calls := calls st @ [args]\<rparr>
                in case upsert e (store st) args of
                     (Some err, c) \<Rightarrow> (Throws err, st1\<lparr>store := c\<rparr>)
                   | (None, c) \<Rightarrow>
                       ingest_loop e files (st1\<lparr>store := c\<rparr>) (chunkCount + length chunks))))"

definition pdf_files :: "string list \<Rightarrow> string list" where
  "pdf_files names = filter (\<lambda>file. endsWith file ''.pdf'') names"

definition ingestDocuments :: "env \<Rightarrow> state \<Rightarrow> ingest_result outcome \<times> state" where
  "ingestDocuments e st =
     (case getOrCreateCollection e COLLECTION_NAME of
        Inl err \<Rightarrow> (Returns (failure err), st)
      | Inr _ \<Rightarrow>
          (case readdir e (DOCUMENTS_DIR e) of
             Inl err \<Rightarrow> (Returns (failure err), st)
           | Inr names \<Rightarrow>
               (let files = pdf_files names in
                if length files = 0 then (Returns (no_pdf_files e), st)
                else
                  (case ingest_loop e files st 0 of
                     (Returns chunkCount, st') \<Rightarrow>
                       (Returns \<lparr>success = True, count = chunkCount, error = None\<rparr>, st')
                   | (Throws err, st') \<Rightarrow> (Returns (failure err), st')
                   | (Never, st') \<Rightarrow> (Never, st')))))"

section \<open>The local pipeline\<close>

definition pdf_unavailable :: string where
  "pdf_unavailable = ''PDF parsing dependency 'pdf-parse' is not available or failed to load.''"

definition pdf_load_failed :: string where
  "pdf_load_failed = ''PDF parsing dependency 'pdf-parse' failed to load.''"

definition parsing_failed :: "env \<Rightarrow> string \<Rightarrow> string \<Rightarrow> string" where
  "parsing_failed e filePath msg =
     ''PDF Parsing failed for '' @ path_basename e filePath @ '': '' @ msg"

definition extractTextFromPdfXenova :: "env \<Rightarrow> string \<Rightarrow> string + string" where
  "extractTextFromPdfXenova e filePath =
     (case readFile e filePath of
        Inl err \<Rightarrow> Inl err
      | Inr dataBuffer \<Rightarrow>
          (case pdf_parse e of
             NotAFunction \<Rightarrow> Inl pdf_unavailable
           | LoadFailed \<Rightarrow> Inl (parsing_failed e filePath pdf_load_failed)
           | PdfFunction pdf \<Rightarrow>
               (case pdf dataBuffer of
                  Inl parseError \<Rightarrow> Inl (parsing_failed e filePath parseError)
                | Inr txt \<Rightarrow> Inr (trim txt))))"

definition initializeExtractor :: "env \<Rightarrow> state \<Rightarrow> (string + feature_extractor) \<times> state" where
  "initializeExtractor e st =
     (case extractor st of
        None \<Rightarrow>
          (case pipeline e ''feature-extraction'' XENOVA_EMBEDDING_MODEL of
             Inl err \<Rightarrow> (Inl err, st)
           | Inr ex \<Rightarrow> (Inr ex, st\<lparr>extractor := Some ex\<rparr>))
      | Some ex \<Rightarrow> (Inr ex, st))"

function embeddings_loop ::
  "tensor \<Rightarrow> nat \<Rightarrow> nat \<Rightarrow> embedding list \<Rightarrow> string + embedding list" where
  "embeddings_loop embeddingsTensor n i embeddingsArray =
     (if i < n
      then (case embeddingsTensor i of
              Inl err \<Rightarrow> Inl err
            | Inr vector \<Rightarrow> embeddings_loop embeddingsTensor n (Suc i) (embeddingsArray @ [vector]))
      else Inr embeddingsArray)"
  by pat_completeness auto
termination
  by (relation "measure (\<lambda>(t, n, i, acc). n - i)") auto

declare embeddings_loop.simps [simp del]

definition generateEmbeddingsXenova ::
  "env \<Rightarrow> state \<Rightarrow> string list \<Rightarrow> (string + embedding list) \<times> state" where
  "generateEmbeddingsXenova e st allChunks =
     (case initializeExtractor e st of
        (Inl err, st1) \<Rightarrow> (Inl err, st1)
      | (Inr ex, st1) \<Rightarrow>
          (case ex allChunks of
             Inl err \<Rightarrow> (Inl err, st1)
           | Inr embeddingsTensor \<Rightarrow>
               (embeddings_loop embeddingsTensor (length allChunks) 0 [], st1)))"

definition warn :: "state \<Rightarrow> string \<Rightarrow> state" where
  "warn st msg = st\<lparr>warnings := warnings st @ [msg]\<rparr>"

definition skip_parse_failed :: "string \<Rightarrow> string \<Rightarrow> string" where
  "skip_parse_failed fileName msg = ''[SKIPPING] Failed to parse '' @ fileName @ '': '' @ msg"

definition skip_no_text :: "string \<Rightarrow> string" where
  "skip_no_text fileName = ''[SKIPPING] File '' @ fileName @
     '' could not be parsed or contains no text. Check if it's a scanned PDF.''"

definition skip_no_chunks :: "string \<Rightarrow> string" where
  "skip_no_chunks fileName = ''[SKIPPING] File '' @ fileName @
     '' yielded text, but no chunks were created after splitting. Skipping ingestion.''"

fun ingest_loop_xenova :: "env \<Rightarrow> string list \<Rightarrow> state \<Rightarrow> nat \<Rightarrow> nat outcome \<times> state" where
  "ingest_loop_xenova e [] st chunkCount = (Returns chunkCount, st)"
| "ingest_loop_xenova e (fileName # files) st chunkCount =
     (case extractTextFromPdfXenova e (path_join e (DOCUMENTS_DIR e) fileName) of
        Inl err \<Rightarrow> ingest_loop_xenova e files (warn st (skip_parse_failed fileName err)) chunkCount
      | Inr fullText \<Rightarrow>
          if length fullText = 0
          then ingest_loop_xenova e files (warn st (skip_no_text fileName)) chunkCount
          else
            (let chunks = splitText e splitter fullText in
             if length chunks = 0
             then ingest_loop_xenova e files (warn st (skip_no_chunks fileName)) chunkCount
             else
               (case generateEmbeddingsXenova e st chunks of
                  (Inl err, st0) \<Rightarrow> (Throws err, st0)
                | (Inr embs, st0) \<Rightarrow>
                    (let (is, ms) = build_ids fileName (length chunks) 0 ([], []);
                         args = \<lparr>ids = is, embeddings = embs, documents = chunks, metadatas = ms\<rparr>;
                         st1 = st0\<lparr>calls := calls st0 @ [args]\<rparr>
                     in case upsert e (store st0) args of
                          (Some err, c) \<Rightarrow> (Throws err, st1\<lparr>store := c\<rparr>)
                        | (None, c) \<Rightarrow>
                            ingest_loop_xenova e files (st1\<lparr>store := c\<rparr>)
                              (chunkCount + length chunks)))))"

text \<open>The \<^verbatim>\<open>finally\<close> block: the module variable is cleared on every exit.\<close>

definition release :: "state \<Rightarrow> state" where
  "release st = st\<lparr>extractor := None\<rparr>"

definition ingestDocumentsXenova :: "env \<Rightarrow> state \<Rightarrow> ingest_result outcome \<times> state" where
  "ingestDocumentsXenova e st =
     (case getOrCreateCollection e COLLECTION_NAME_XENOVA of
        Inl err \<Rightarrow> (Returns (failure err), release st)
      | Inr _ \<Rightarrow>
          (case readdir e (DOCUMENTS_DIR e) of
             Inl err \<Rightarrow> (Returns (failure err), release st)
           | Inr names \<Rightarrow>
               (let files = pdf_files names in
                if length files = 0 then (Returns (no_pdf_files e), release st)
                else
                  (case ingest_loop_xenova e files st 0 of
                     (Returns chunkCount, st') \<Rightarrow>
                       (Returns \<lparr>success = True, count = chunkCount, error = None\<rparr>, release st')
                   | (Throws err, st') \<Rightarrow> (Returns (failure err), release st')
                   | (Never, st') \<Rightarrow> (Never, release st')))))"

section \<open>The chat route handler\<close>

datatype json =
  JNull
  | JBool bool
  | JNum rat
  | JStr string
  | JArr "json list"
  | JObj "(string \<times> json) list"

datatype response =
  JsonResponse nat "(string \<times> string) list"
  | StreamResponse nat "(string \<times> string) list" string

record chat_env =
  req_json :: "string + json"
  runRAGChatXenova :: "json \<Rightarrow> string + string"

text \<open>
  The destructuring \<^verbatim>\<open>const { query } = ...\<close>: a \<^verbatim>\<open>TypeError\<close> on \<^verbatim>\<open>null\<close>, the last
  binding of the key in an object, and \<^verbatim>\<open>undefined\<close> (here \<open>None\<close>) otherwise.
\<close>

definition destructure_query :: "json \<Rightarrow> string + json option" where
  "destructure_query body =
     (case body of
        JNull \<Rightarrow>
          Inl ''Cannot destructure property 'query' of '(intermediate value)' as it is null.''
      | JObj kvs \<Rightarrow> Inr (map_of (rev kvs) ''query'')
      | _ \<Rightarrow> Inr None)"

fun falsy :: "json option \<Rightarrow> bool" where
  "falsy None = True"
| "falsy (Some JNull) = True"
| "falsy (Some (JBool b)) = (\<not> b)"
| "falsy (Some (JNum x)) = (x = 0)"
| "falsy (Some (JStr s)) = (s = [])"
| "falsy (Some (JArr xs)) = False"
| "falsy (Some (JObj kvs)) = False"

definition server_error :: "string \<Rightarrow> response" where
  "server_error msg = JsonResponse 500
     [(''error'', ''An error occurred during Xenova RAG processing.''), (''details'', msg)]"

definition missing_query :: response where
  "missing_query = JsonResponse 400 [(''error'', ''Missing query parameter in request body.'')]"

text \<open>The handler returns its response and the list of the queries handed to the RAG pipeline.\<close>

definition POST :: "chat_env \<Rightarrow> response \<times> json list" where
  "POST c =
     (case req_json c of
        Inl err \<Rightarrow> (server_error err, [])
      | Inr body \<Rightarrow>
          (case destructure_query body of
             Inl err \<Rightarrow> (server_error err, [])
           | Inr None \<Rightarrow> (missing_query, [])
           | Inr (Some query) \<Rightarrow>
               if falsy (Some query) then (missing_query, [])
               else
                 (case runRAGChatXenova c query of
                    Inl err \<Rightarrow> (server_error err, [query])
                  | Inr stream \<Rightarrow>
                      (StreamResponse 200
                         [(''Content-Type'', ''text/plain; charset=utf-8''),
                          (''Transfer-Encoding'', ''chunked'')] stream,
                       [query]))))"

section \<open>Notions used to state the properties\<close>

definition doc_ids :: "string \<Rightarrow> nat \<Rightarrow> string list" where
  "doc_ids fileName n = map (\<lambda>i. fileName @ ''-'' @ string_of_nat i) [0..<n]"

definition doc_metadatas :: "string \<Rightarrow> nat \<Rightarrow> metadata list" where
  "doc_metadatas fileName n = map (\<lambda>i. \<lparr>source = fileName, chunk_index = i\<rparr>) [0..<n]"

definition doc_path :: "env \<Rightarrow> string \<Rightarrow> string" where
  "doc_path e fileName = path_join e (DOCUMENTS_DIR e) fileName"

text \<open>The upsert calls made between two states of a run.\<close>

definition new_calls :: "state \<Rightarrow> state \<Rightarrow> upsert_args list" where
  "new_calls st st' = drop (length (calls st)) (calls st')"

text \<open>The extractor a run works with: the module variable if set, else what \<^verbatim>\<open>pipeline\<close> gives.\<close>

definition active_extractor :: "env \<Rightarrow> state \<Rightarrow> string + feature_extractor" where
  "active_extractor e st =
     (case extractor st of
        Some ex \<Rightarrow> Inr ex
      | None \<Rightarrow> pipeline e ''feature-extraction'' XENOVA_EMBEDDING_MODEL)"

text \<open>
  \<open>gemini_sent e f a\<close>: the call \<open>a\<close> is the one the cloud pipeline builds for file \<open>f\<close>;
  \<open>xenova_sent e x f a\<close> is the same for the local pipeline working with extractor \<open>x\<close>.
\<close>

definition gemini_sent :: "env \<Rightarrow> string \<Rightarrow> upsert_args \<Rightarrow> bool" where
  "gemini_sent e f a =
     ((case extractTextFromPdf e (doc_path e f) of
         Returns t \<Rightarrow> documents a = chunkText e t
       | _ \<Rightarrow> False)
      \<and> generateEmbeddings e (documents a) = Inr (embeddings a)
      \<and> ids a = doc_ids f (length (documents a))
      \<and> metadatas a = doc_metadatas f (length (documents a)))"

definition xenova_sent :: "env \<Rightarrow> string + feature_extractor \<Rightarrow> string \<Rightarrow> upsert_args \<Rightarrow> bool" where
  "xenova_sent e x f a =
     ((case extractTextFromPdfXenova e (doc_path e f) of
         Inr t \<Rightarrow> t \<noteq> [] \<and> documents a = splitText e splitter t
       | Inl _ \<Rightarrow> False)
      \<and> documents a \<noteq> []
      \<and> (case x of
            Inr ex \<Rightarrow>
              (case ex (documents a) of
                 Inr tensor \<Rightarrow>
                   embeddings_loop tensor (length (documents a)) 0 [] = Inr (embeddings a)
               | Inl _ \<Rightarrow> False)
          | Inl _ \<Rightarrow> False)
      \<and> ids a = doc_ids f (length (documents a))
      \<and> metadatas a = doc_metadatas f (length (documents a)))"

text \<open>
  The rows an upsert call carries, position by position, and whether its four arrays are of
  equal length.
\<close>

definition rows_of :: "upsert_args \<Rightarrow> row list" where
  "rows_of a =
     map (\<lambda>(v, d, m). \<lparr>row_embedding = v, row_document = d, row_metadata = m\<rparr>)
       (zip (embeddings a) (zip (documents a) (metadatas a)))"

definition aligned :: "upsert_args \<Rightarrow> bool" where
  "aligned a =
     (length (embeddings a) = length (ids a) \<and> length (documents a) = length (ids a)
      \<and> length (metadatas a) = length (ids a))"

text \<open>
  Modelled from the spec: the \<^verbatim>\<open>upsert\<close> of the vector store, an external service whose
  code is not in the repository. The spec (4.4) gives it overwrite semantics keyed by id and
  requires the four arrays to be of equal length; a call that breaks the requirement is
  refused and writes nothing.
\<close>

definition chroma_upsert :: "collection \<Rightarrow> upsert_args \<Rightarrow> string option \<times> collection" where
  "chroma_upsert col a =
     (if aligned a
      then (None, fold (\<lambda>(k, r) m. m(k \<mapsto> r)) (zip (ids a) (rows_of a)) col)
      else (Some ''ids, embeddings, documents and metadatas must have the same length'', col))"

text \<open>
  The chunks a pipeline derives from a file (none when the file is not ingested), the ids
  a run over a list of files writes, and the rows an aligned upsert call writes.
\<close>

definition gemini_chunks :: "env \<Rightarrow> string \<Rightarrow> string list" where
  "gemini_chunks e f =
     (case extractTextFromPdf e (doc_path e f) of Returns t \<Rightarrow> chunkText e t | _ \<Rightarrow> [])"

definition xenova_chunks :: "env \<Rightarrow> string \<Rightarrow> string list" where
  "xenova_chunks e f =
     (case extractTextFromPdfXenova e (doc_path e f) of
        Inr t \<Rightarrow> if t = [] then [] else splitText e splitter t
      | Inl _ \<Rightarrow> [])"

definition run_ids :: "(string \<Rightarrow> string list) \<Rightarrow> string list \<Rightarrow> string set" where
  "run_ids chunks fs = (\<Union>f\<in>set fs. set (doc_ids f (length (chunks f))))"

definition doc_args :: "string \<Rightarrow> string list \<Rightarrow> embedding list \<Rightarrow> upsert_args" where
  "doc_args f chunks embs =
     \<lparr>ids = doc_ids f (length chunks), embeddings = embs, documents = chunks,
      metadatas = doc_metadatas f (length chunks)\<rparr>"

definition written :: "upsert_args \<Rightarrow> collection" where
  "written a = map_of (rev (zip (ids a) (rows_of a)))"

text \<open>Every row of the collection sits under the id made of its own metadata.\<close>

definition row_ids_ok :: "collection \<Rightarrow> bool" where
  "row_ids_ok col =
     (\<forall>k r. col k = Some r \<longrightarrow>
        k = source (row_metadata r) @ ''-'' @ string_of_nat (chunk_index (row_metadata r)))"

section \<open>Examples used by the closed theorems\<close>

definition chat_no_body :: chat_env where
  "chat_no_body =
     \<lparr>req_json = Inl ''Unexpected end of JSON input'', runRAGChatXenova = (\<lambda>q. Inr ''answer'')\<rparr>"

definition chat_example :: "json \<Rightarrow> chat_env" where
  "chat_example body = \<lparr>req_json = Inr body, runRAGChatXenova = (\<lambda>q. Inr ''answer'')\<rparr>"

text \<open>
  A small world: a directory with two PDF files and a text file, a stand-in splitter that
  gives no chunk for blank text and else cuts after four characters, an embedding API and a local model that answer every text with
  a one-number vector, and the store of the spec.
\<close>

definition demo_split :: "splitter_config \<Rightarrow> string \<Rightarrow> string list" where
  "demo_split cfg t =
     (if trim t = [] then [] else if length t \<le> 4 then [t] else [take 4 t, drop 4 t])"

definition demo_extractor :: feature_extractor where
  "demo_extractor chunks =
     Inr (\<lambda>i. if i < length chunks then Inr [real (length (chunks ! i))]
              else Inl ''index out of bounds'')"

definition demo_env :: env where
  "demo_env = \<lparr>
     CHROMA_HOST = ''http://localhost:8000'',
     DOCUMENTS_DIR = ''/app/documents'',
     chroma_getOrCreateCollection = (\<lambda>name. None),
     upsert = chroma_upsert,
     readdir = (\<lambda>dir. Inr [''a.pdf'', ''notes.txt'', ''b.pdf'']),
     path_join = (\<lambda>dir file. dir @ ''/'' @ file),
     path_basename = (\<lambda>p. rev (takeWhile (\<lambda>c. c \<noteq> CHR ''/'') (rev p))),
     splitText = demo_split,
     loadPDF = (\<lambda>p. if p = ''/app/documents/a.pdf'' then Inr [[[''Hello'', ''world'']]]
                     else if p = ''/app/documents/b.pdf'' then Inr [[[''Hi'']]]
                     else Inl ''no such file''),
     decodeURIComponent = Some,
     embedContent = (\<lambda>model contents.
        if contents = [] then Inr None
        else Inr (Some (map (\<lambda>c. \<lparr>embedding_values = [real (length (concat c))]\<rparr>) contents))),
     readFile = (\<lambda>p. if p = ''/app/documents/a.pdf'' \<or> p = ''/app/documents/b.pdf'' then Inr p
                      else Inl ''no such file''),
     pdf_parse = PdfFunction (\<lambda>buf. if buf = ''/app/documents/a.pdf'' then Inr '' Hello world ''
                                      else Inr ''Hi''),
     pipeline = (\<lambda>task model. Inr demo_extractor)\<rparr>"

definition init_state :: state where
  "init_state = \<lparr>store = Map.empty, calls = [], warnings = [], extractor = None\<rparr>"

definition demo_call_a :: upsert_args where
  "demo_call_a =
     \<lparr>ids = [''a.pdf-0'', ''a.pdf-1''], embeddings = [[4], [9]],
      documents = [''Hell'', ''o world'' @ [CHR 0x0A, CHR 0x0A]],
      metadatas = [\<lparr>source = ''a.pdf'', chunk_index = 0\<rparr>, \<lparr>source = ''a.pdf'', chunk_index = 1\<rparr>]\<rparr>"

definition demo_call_b :: upsert_args where
  "demo_call_b =
     \<lparr>ids = [''b.pdf-0''], embeddings = [[4]], documents = [''Hi'' @ [CHR 0x0A, CHR 0x0A]],
      metadatas = [\<lparr>source = ''b.pdf'', chunk_index = 0\<rparr>]\<rparr>"

definition demo_local_call_a :: upsert_args where
  "demo_local_call_a =
     \<lparr>ids = [''a.pdf-0'', ''a.pdf-1''], embeddings = [[4], [7]],
      documents = [''Hell'', ''o world''],
      metadatas = [\<lparr>source = ''a.pdf'', chunk_index = 0\<rparr>, \<lparr>source = ''a.pdf'', chunk_index = 1\<rparr>]\<rparr>"

definition demo_local_call_b :: upsert_args where
  "demo_local_call_b =
     \<lparr>ids = [''b.pdf-0''], embeddings = [[2]], documents = [''Hi''],
      metadatas = [\<lparr>source = ''b.pdf'', chunk_index = 0\<rparr>]\<rparr>"

text \<open>The same world with an embedding API that answers every batch with a single vector.\<close>

definition short_env :: env where
  "short_env = demo_env\<lparr>embedContent := (\<lambda>model contents. Inr (Some [\<lparr>embedding_values = [0]\<rparr>]))\<rparr>"

text \<open>The vector store cannot be reached and the directory holds no PDF file.\<close>

definition down_env :: env where
  "down_env = demo_env\<lparr>chroma_getOrCreateCollection := (\<lambda>name. Some ''connect ECONNREFUSED''),
                        readdir := (\<lambda>dir. Inr [''notes.txt''])\<rparr>"

text \<open>The directory holds only upper-case variants of the extension.\<close>

definition upper_env :: env where
  "upper_env = demo_env\<lparr>readdir := (\<lambda>dir. Inr [''REPORT.PDF'', ''scan.Pdf''])\<rparr>"

definition upper_down_env :: env where
  "upper_down_env = upper_env\<lparr>chroma_getOrCreateCollection := (\<lambda>name. Some ''connect ECONNREFUSED'')\<rparr>"

text \<open>The first file is a scan: one page without any text run, and no text from the parser.\<close>

definition scanned_env :: env where
  "scanned_env = demo_env\<lparr>
     loadPDF := (\<lambda>p. if p = ''/app/documents/a.pdf'' then Inr [[]] else loadPDF demo_env p),
     pdf_parse := PdfFunction (\<lambda>buf. if buf = ''/app/documents/a.pdf''
                                       then Inr [CHR 0x0A, CHR 0x0A] else Inr ''Hi'')\<rparr>"

text \<open>Embedding fails for the second file, after the first one is stored.\<close>

definition failing_env :: env where
  "failing_env = demo_env\<lparr>
     embedContent := (\<lambda>model contents.
        if contents = [[''Hi'' @ [CHR 0x0A, CHR 0x0A]]] then Inl ''quota exceeded''
        else embedContent demo_env model contents),
     pipeline := (\<lambda>task model.
        Inr (\<lambda>chunks. if chunks = [''Hi''] then Inl ''out of memory'' else demo_extractor chunks))\<rparr>"

text \<open>The directory holds no PDF file; the vector store can be reached.\<close>

definition empty_dir_env :: env where
  "empty_dir_env = demo_env\<lparr>readdir := (\<lambda>dir. Inr [''notes.txt''])\<rparr>"

text \<open>The same documents, embedded anew by a provider that gives other vectors.\<close>

definition recomputed_env :: env where
  "recomputed_env = demo_env\<lparr>
     embedContent := (\<lambda>model contents.
        if contents = [] then Inr None
        else Inr (Some (map (\<lambda>c. \<lparr>embedding_values = [0]\<rparr>) contents))),
     pipeline := (\<lambda>task model.
        Inr (\<lambda>chunks. Inr (\<lambda>i. if i < length chunks then Inr [0]
                                 else Inl ''index out of bounds'')))\<rparr>"

definition cloud_after_first :: state where
  "cloud_after_first = snd (ingestDocuments demo_env init_state)"

definition cloud_after_second :: state where
  "cloud_after_second = snd (ingestDocuments recomputed_env cloud_after_first)"

definition local_after_first :: state where
  "local_after_first = snd (ingestDocumentsXenova demo_env init_state)"

definition local_after_second :: state where
  "local_after_second = snd (ingestDocumentsXenova recomputed_env local_after_first)"

section \<open>The loops in closed form\<close>

lemma build_ids_from:
  "i \<le> n \<Longrightarrow> build_ids f n i (is, ms) =
     (is @ map (\<lambda>k. f @ ''-'' @ string_of_nat k) [i..<n],
      ms @ map (\<lambda>k. \<lparr>source = f, chunk_index = k\<rparr>) [i..<n])"
proof (induction f n i "(is, ms)" arbitrary: "is" ms rule: build_ids.induct)
  case (1 fileName n i "is" ms)
  show ?case
  proof (cases "i < n")
    case True
    then have "Suc i \<le> n" by simp
    from "1.hyps" [OF True this] True show ?thesis
      by (subst build_ids.simps) (simp add: upt_conv_Cons)
  next
    case False
    with "1.prems" show ?thesis
      by (subst build_ids.simps) simp
  qed
qed

lemma build_ids_eq: "build_ids f n 0 ([], []) = (doc_ids f n, doc_metadatas f n)"
  by (simp add: build_ids_from doc_ids_def doc_metadatas_def)

lemma embeddings_loop_from:
  "i \<le> n \<Longrightarrow> embeddings_loop t n i acc = Inr out \<Longrightarrow>
     \<exists>vs. out = acc @ vs \<and> map t [i..<n] = map Inr vs"
proof (induction t n i acc rule: embeddings_loop.induct)
  case (1 t n i acc)
  show ?case
  proof (cases "i < n")
    case True
    from "1.prems"(2) True obtain v where v: "t i = Inr v"
      and rec: "embeddings_loop t n (Suc i) (acc @ [v]) = Inr out"
      by (subst (asm) embeddings_loop.simps) (auto split: sum.splits)
    from True have le: "Suc i \<le> n" by simp
    from "1.IH" [OF True v le rec] obtain vs where
      "out = (acc @ [v]) @ vs" "map t [Suc i..<n] = map Inr vs" by blast
    with v True have "out = acc @ (v # vs) \<and> map t [i..<n] = map Inr (v # vs)"
      by (simp add: upt_conv_Cons)
    then show ?thesis by blast
  next
    case False
    with "1.prems" have "out = acc" "i = n"
      by (subst (asm) embeddings_loop.simps, simp)+
    then show ?thesis by simp
  qed
qed

lemma embeddings_loop_rows:
  assumes "embeddings_loop t n 0 [] = Inr out"
  shows "length out = n \<and> (\<forall>k<n. t k = Inr (out ! k))"
proof -
  from embeddings_loop_from [OF _ assms] have m: "map t [0..<n] = map Inr out" by simp
  then have len: "length out = n"
    by (metis length_map length_upt minus_nat.diff_0)
  have "t k = Inr (out ! k)" if "k < n" for k
  proof -
    from m have "map t [0..<n] ! k = map Inr out ! k" by simp
    with that len show ?thesis by simp
  qed
  with len show ?thesis by blast
qed

lemma ingest_loop_step:
  "ingest_loop e (f # fs) st c =
     (case extractTextFromPdf e (doc_path e f) of
        Never \<Rightarrow> (Never, st)
      | Throws err \<Rightarrow> (Throws err, st)
      | Returns t \<Rightarrow>
          (case generateEmbeddings e (chunkText e t) of
             Inl err \<Rightarrow> (Throws err, st)
           | Inr embs \<Rightarrow>
               (let a = \<lparr>ids = doc_ids f (length (chunkText e t)), embeddings = embs,
                          documents = chunkText e t,
                          metadatas = doc_metadatas f (length (chunkText e t))\<rparr>
                in case upsert e (store st) a of
                     (Some err, col) \<Rightarrow> (Throws err, st\<lparr>calls := calls st @ [a], store := col\<rparr>)
                   | (None, col) \<Rightarrow>
                       ingest_loop e fs (st\<lparr>calls := calls st @ [a], store := col\<rparr>)
                         (c + length (chunkText e t)))))"
  by (simp add: doc_path_def build_ids_eq Let_def split: outcome.splits sum.splits)

lemma ingest_loop_calls:
  "ingest_loop e fs st c = (out, st') \<Longrightarrow>
     \<exists>cs. calls st' = calls st @ cs \<and> (\<forall>a\<in>set cs. \<exists>f\<in>set fs. gemini_sent e f a)"
proof (induction fs arbitrary: st c)
  case Nil
  then show ?case by simp
next
  case (Cons f fs)
  show ?case
  proof (cases "extractTextFromPdf e (doc_path e f)")
    case (Returns t)
    show ?thesis
    proof (cases "generateEmbeddings e (chunkText e t)")
      case (Inl err)
      with Returns Cons.prems show ?thesis by (simp add: ingest_loop_step del: ingest_loop.simps)
    next
      case (Inr embs)
      define a where "a = \<lparr>ids = doc_ids f (length (chunkText e t)), embeddings = embs,
                          documents = chunkText e t,
                          metadatas = doc_metadatas f (length (chunkText e t))\<rparr>"
      have sent: "gemini_sent e f a"
        using Returns Inr by (simp add: gemini_sent_def a_def)
      obtain r col where up: "upsert e (store st) a = (r, col)" by (cases "upsert e (store st) a")
      show ?thesis
      proof (cases r)
        case None
        with Returns Inr up Cons.prems
        have "ingest_loop e fs (st\<lparr>calls := calls st @ [a], store := col\<rparr>) (c + length (chunkText e t)) = (out, st')"
          by (simp add: ingest_loop_step a_def Let_def del: ingest_loop.simps)
        from Cons.IH [OF this] obtain cs where
          "calls st' = (calls st @ [a]) @ cs" "\<forall>a\<in>set cs. \<exists>f\<in>set fs. gemini_sent e f a"
          by auto
        with sent have "calls st' = calls st @ (a # cs) \<and> (\<forall>b\<in>set (a # cs). \<exists>g\<in>set (f # fs). gemini_sent e g b)"
          by auto
        then show ?thesis by blast
      next
        case (Some err)
        with Returns Inr up Cons.prems
        have "st' = st\<lparr>calls := calls st @ [a], store := col\<rparr>"
          by (simp add: ingest_loop_step a_def Let_def del: ingest_loop.simps)
        with sent have "calls st' = calls st @ [a] \<and> (\<forall>b\<in>set [a]. \<exists>g\<in>set (f # fs). gemini_sent e g b)"
          by simp
        then show ?thesis by blast
      qed
    qed
  next
    case (Throws err)
    with Cons.prems show ?thesis by (simp add: ingest_loop_step del: ingest_loop.simps)
  next
    case Never
    with Cons.prems show ?thesis by (simp add: ingest_loop_step del: ingest_loop.simps)
  qed
qed

lemma generateEmbeddingsXenova_closed:
  "generateEmbeddingsXenova e st chunks =
     (case active_extractor e st of
        Inl err \<Rightarrow> (Inl err, st)
      | Inr ex \<Rightarrow>
          (case ex chunks of
             Inl err \<Rightarrow> (Inl err, st\<lparr>extractor := Some ex\<rparr>)
           | Inr tensor \<Rightarrow>
               (embeddings_loop tensor (length chunks) 0 [], st\<lparr>extractor := Some ex\<rparr>)))"
  by (cases "extractor st")
     (auto simp: generateEmbeddingsXenova_def initializeExtractor_def active_extractor_def
           split: sum.splits)

lemma active_extractor_simps [simp]:
  "active_extractor e (warn st msg) = active_extractor e st"
  "active_extractor e (st\<lparr>extractor := Some ex\<rparr>) = Inr ex"
  "active_extractor e (st\<lparr>calls := cs\<rparr>) = active_extractor e st"
  "active_extractor e (st\<lparr>store := col\<rparr>) = active_extractor e st"
  by (simp_all add: active_extractor_def warn_def)

lemma warn_simps [simp]:
  "calls (warn st msg) = calls st"
  "store (warn st msg) = store st"
  "extractor (warn st msg) = extractor st"
  "warnings (warn st msg) = warnings st @ [msg]"
  by (simp_all add: warn_def)

text \<open>What one pass of the local loop does with a file, given the extractor at hand.\<close>

lemma ingest_loop_xenova_step:
  "ingest_loop_xenova e (f # fs) st c =
     (case extractTextFromPdfXenova e (doc_path e f) of
        Inl err \<Rightarrow> ingest_loop_xenova e fs (warn st (skip_parse_failed f err)) c
      | Inr t \<Rightarrow>
          if t = [] then ingest_loop_xenova e fs (warn st (skip_no_text f)) c
          else if splitText e splitter t = []
          then ingest_loop_xenova e fs (warn st (skip_no_chunks f)) c
          else
            (case active_extractor e st of
               Inl err \<Rightarrow> (Throws err, st)
             | Inr ex \<Rightarrow>
                 (case ex (splitText e splitter t) of
                    Inl err \<Rightarrow> (Throws err, st\<lparr>extractor := Some ex\<rparr>)
                  | Inr tensor \<Rightarrow>
                      (case embeddings_loop tensor (length (splitText e splitter t)) 0 [] of
                         Inl err \<Rightarrow> (Throws err, st\<lparr>extractor := Some ex\<rparr>)
                       | Inr embs \<Rightarrow>
                           (let a = \<lparr>ids = doc_ids f (length (splitText e splitter t)),
                                      embeddings = embs,
                                      documents = splitText e splitter t,
                                      metadatas = doc_metadatas f (length (splitText e splitter t))\<rparr>
                            in case upsert e (store st) a of
                                 (Some err, col) \<Rightarrow>
                                   (Throws err,
                                    st\<lparr>extractor := Some ex, calls := calls st @ [a], store := col\<rparr>)
                               | (None, col) \<Rightarrow>
                                   ingest_loop_xenova e fs
                                     (st\<lparr>extractor := Some ex, calls := calls st @ [a], store := col\<rparr>)
                                     (c + length (splitText e splitter t)))))))"
  by (simp add: doc_path_def build_ids_eq Let_def generateEmbeddingsXenova_closed
           split: sum.splits)

lemma ingest_loop_xenova_calls:
  "ingest_loop_xenova e fs st c = (out, st') \<Longrightarrow>
     \<exists>cs. calls st' = calls st @ cs \<and>
          (\<forall>a\<in>set cs. \<exists>f\<in>set fs. xenova_sent e (active_extractor e st) f a)"
proof (induction fs arbitrary: st c)
  case Nil
  then show ?case by simp
next
  case (Cons f fs)
  note step = ingest_loop_xenova_step [of e f fs st c]
  have skip: ?case
    if "ingest_loop_xenova e fs (warn st msg) c = (out, st')" for msg
  proof -
    from Cons.IH [OF that] obtain cs where
      "calls st' = calls st @ cs"
      "\<forall>a\<in>set cs. \<exists>g\<in>set fs. xenova_sent e (active_extractor e st) g a"
      by auto
    then have "calls st' = calls st @ cs \<and>
        (\<forall>a\<in>set cs. \<exists>g\<in>set (f # fs). xenova_sent e (active_extractor e st) g a)"
      by auto
    then show ?thesis by blast
  qed
  show ?case
  proof (cases "extractTextFromPdfXenova e (doc_path e f)")
    case (Inl err)
    with Cons.prems step show ?thesis by (intro skip [of "skip_parse_failed f err"]) simp
  next
    case (Inr t)
    show ?thesis
    proof (cases "t = []")
      case True
      with Inr Cons.prems step show ?thesis by (intro skip [of "skip_no_text f"]) simp
    next
      case tne: False
      show ?thesis
      proof (cases "splitText e splitter t = []")
        case True
        with tne Inr Cons.prems step show ?thesis by (intro skip [of "skip_no_chunks f"]) simp
      next
        case cne: False
        show ?thesis
        proof (cases "active_extractor e st")
          case (Inl err)
          with cne tne Inr Cons.prems step show ?thesis by simp
        next
          case ax: (Inr ex)
          show ?thesis
          proof (cases "ex (splitText e splitter t)")
            case (Inl err)
            with ax cne tne Inr Cons.prems step show ?thesis by auto
          next
            case tn: (Inr tensor)
            show ?thesis
            proof (cases "embeddings_loop tensor (length (splitText e splitter t)) 0 []")
              case (Inl err)
              with tn ax cne tne Inr Cons.prems step show ?thesis by auto
            next
              case em: (Inr embs)
              define a where "a = \<lparr>ids = doc_ids f (length (splitText e splitter t)),
                                      embeddings = embs,
                                      documents = splitText e splitter t,
                                      metadatas = doc_metadatas f (length (splitText e splitter t))\<rparr>"
              have sent: "xenova_sent e (active_extractor e st) f a"
                using Inr tne cne ax tn em by (simp add: xenova_sent_def a_def)
              obtain r col where up: "upsert e (store st) a = (r, col)"
                by (cases "upsert e (store st) a")
              define st1 where "st1 = st\<lparr>extractor := Some ex, calls := calls st @ [a], store := col\<rparr>"
              have ax1: "active_extractor e st1 = active_extractor e st"
                by (simp add: st1_def ax)
              show ?thesis
              proof (cases r)
                case None
                with em tn ax cne tne Inr Cons.prems step up
                have "ingest_loop_xenova e fs st1 (c + length (splitText e splitter t)) = (out, st')"
                  by (simp add: a_def st1_def Let_def)
                from Cons.IH [OF this] ax1 obtain cs where
                  "calls st' = calls st1 @ cs"
                  "\<forall>a\<in>set cs. \<exists>g\<in>set fs. xenova_sent e (active_extractor e st) g a"
                  by auto
                with sent have "calls st' = calls st @ (a # cs) \<and>
                    (\<forall>b\<in>set (a # cs). \<exists>g\<in>set (f # fs). xenova_sent e (active_extractor e st) g b)"
                  by (auto simp: st1_def)
                then show ?thesis by blast
              next
                case (Some err)
                with em tn ax cne tne Inr Cons.prems step up
                have "st' = st1"
                  by (simp add: a_def st1_def Let_def)
                with sent have "calls st' = calls st @ [a] \<and>
                    (\<forall>b\<in>set [a]. \<exists>g\<in>set (f # fs). xenova_sent e (active_extractor e st) g b)"
                  by (simp add: st1_def)
                then show ?thesis by blast
              qed
            qed
          qed
        qed
      qed
    qed
  qed
qed

section \<open>The upsert calls of a run\<close>

declare ingest_loop.simps(2) [simp del]
declare ingest_loop_xenova.simps(2) [simp del]

lemma new_calls_self [simp]: "new_calls st st = []"
  by (simp add: new_calls_def)

lemma release_simps [simp]:
  "calls (release st) = calls st"
  "store (release st) = store st"
  "warnings (release st) = warnings st"
  "extractor (release st) = None"
  by (simp_all add: release_def)

lemma new_calls_release [simp]: "new_calls st (release st') = new_calls st st'"
  by (simp add: new_calls_def)

lemma ingestDocuments_calls:
  assumes "a \<in> set (new_calls st (snd (ingestDocuments e st)))"
  shows "\<exists>names f. readdir e (DOCUMENTS_DIR e) = Inr names \<and> f \<in> set (pdf_files names)
           \<and> gemini_sent e f a"
proof (cases "getOrCreateCollection e COLLECTION_NAME")
  case (Inl err)
  with assms show ?thesis by (simp add: ingestDocuments_def)
next
  case conn: (Inr u)
  show ?thesis
  proof (cases "readdir e (DOCUMENTS_DIR e)")
    case (Inl err)
    with conn assms show ?thesis by (simp add: ingestDocuments_def)
  next
    case (Inr names)
    obtain out st' where loop: "ingest_loop e (pdf_files names) st 0 = (out, st')"
      by (cases "ingest_loop e (pdf_files names) st 0")
    from ingest_loop_calls [OF loop] obtain cs where
      cs: "calls st' = calls st @ cs" "\<forall>a\<in>set cs. \<exists>f\<in>set (pdf_files names). gemini_sent e f a"
      by blast
    have "snd (ingestDocuments e st) = st' \<or> snd (ingestDocuments e st) = st"
      using conn Inr loop by (cases out) (simp_all add: ingestDocuments_def Let_def)
    with assms cs(1) have "a \<in> set cs" by (auto simp: new_calls_def)
    with cs(2) Inr show ?thesis by blast
  qed
qed

lemma ingestDocumentsXenova_calls:
  assumes "a \<in> set (new_calls st (snd (ingestDocumentsXenova e st)))"
  shows "\<exists>names f. readdir e (DOCUMENTS_DIR e) = Inr names \<and> f \<in> set (pdf_files names)
           \<and> xenova_sent e (active_extractor e st) f a"
proof (cases "getOrCreateCollection e COLLECTION_NAME_XENOVA")
  case (Inl err)
  with assms show ?thesis by (simp add: ingestDocumentsXenova_def)
next
  case conn: (Inr u)
  show ?thesis
  proof (cases "readdir e (DOCUMENTS_DIR e)")
    case (Inl err)
    with conn assms show ?thesis by (simp add: ingestDocumentsXenova_def)
  next
    case (Inr names)
    obtain out st' where loop: "ingest_loop_xenova e (pdf_files names) st 0 = (out, st')"
      by (cases "ingest_loop_xenova e (pdf_files names) st 0")
    from ingest_loop_xenova_calls [OF loop] obtain cs where
      cs: "calls st' = calls st @ cs"
        "\<forall>a\<in>set cs. \<exists>f\<in>set (pdf_files names). xenova_sent e (active_extractor e st) f a"
      by blast
    have "snd (ingestDocumentsXenova e st) = release st'
          \<or> snd (ingestDocumentsXenova e st) = release st"
      using conn Inr loop by (cases out) (simp_all add: ingestDocumentsXenova_def Let_def)
    with assms cs(1) have "a \<in> set cs" by (auto simp: new_calls_def)
    with cs(2) Inr show ?thesis by blast
  qed
qed

lemma doc_ids_nth:
  "length (doc_ids f n) = n" "i < n \<Longrightarrow> doc_ids f n ! i = f @ ''-'' @ string_of_nat i"
  by (simp_all add: doc_ids_def)

lemma doc_metadatas_nth:
  "length (doc_metadatas f n) = n"
  "i < n \<Longrightarrow> doc_metadatas f n ! i = \<lparr>source = f, chunk_index = i\<rparr>"
  by (simp_all add: doc_metadatas_def)

section \<open>The example world, evaluated\<close>

lemmas demo_unfold =
  getOrCreateCollection_def demo_env_def init_state_def
  pdf_files_def endsWith_def doc_path_def extractTextFromPdf_def
  chunkText_def demo_split_def generateEmbeddings_def doc_ids_def doc_metadatas_def
  chroma_upsert_def aligned_def rows_of_def string_of_nat.simps digit_char_def Let_def
  upt_rec extractTextFromPdfXenova_def trim_def is_whitespace_def active_extractor_def
  demo_extractor_def embeddings_loop.simps warn_def release_def

lemma demo_cloud_calls:
  "calls (snd (ingestDocuments demo_env init_state)) = [demo_call_a, demo_call_b]"
  by (simp add: ingestDocuments_def ingest_loop_step demo_unfold demo_call_a_def demo_call_b_def)

lemma demo_local_calls:
  "calls (snd (ingestDocumentsXenova demo_env init_state)) = [demo_local_call_a, demo_local_call_b]"
  by (simp add: ingestDocumentsXenova_def ingest_loop_xenova_step demo_unfold
      demo_local_call_a_def demo_local_call_b_def)

text \<open>
  C3, as amended. In every upsert call of either pipeline \<open>ids\<close>, \<open>documents\<close> and
  \<open>metadatas\<close> have the same length and position \<open>i\<close> of each is about chunk \<open>i\<close>. In the
  local pipeline \<open>embeddings\<close> has that length too and holds at \<open>i\<close> row \<open>i\<close> of what the
  model returned for the chunks. In the cloud pipeline \<open>embeddings\<close> holds the vectors of
  the API response for the chunks, one for one, so it is as long as the response is.
\<close>

theorem upsert_arrays_follow_the_chunks:
  "(a \<in> set (new_calls st (snd (ingestDocuments e st))) \<longrightarrow>
      length (ids a) = length (documents a) \<and> length (metadatas a) = length (documents a) \<and>
      (\<forall>i<length (documents a). chunk_index (metadatas a ! i) = i \<and>
         ids a ! i = source (metadatas a ! i) @ ''-'' @ string_of_nat i) \<and>
      (\<exists>es. embedContent e EMBEDDING_MODEL (map (\<lambda>t. [t]) (documents a)) = Inr (Some es) \<and>
         embeddings a = map embedding_values es))
   \<and> (a' \<in> set (new_calls st (snd (ingestDocumentsXenova e st))) \<longrightarrow>
      length (ids a') = length (documents a') \<and> length (metadatas a') = length (documents a') \<and>
      length (embeddings a') = length (documents a') \<and>
      (\<forall>i<length (documents a'). chunk_index (metadatas a' ! i) = i \<and>
         ids a' ! i = source (metadatas a' ! i) @ ''-'' @ string_of_nat i) \<and>
      (\<exists>ex tensor. active_extractor e st = Inr ex \<and> ex (documents a') = Inr tensor \<and>
         (\<forall>i<length (documents a'). tensor i = Inr (embeddings a' ! i))))"
proof (intro conjI impI)
  assume "a \<in> set (new_calls st (snd (ingestDocuments e st)))"
  from ingestDocuments_calls [OF this] obtain f where s: "gemini_sent e f a" by blast
  then have i: "ids a = doc_ids f (length (documents a))"
    and m: "metadatas a = doc_metadatas f (length (documents a))"
    and g: "generateEmbeddings e (documents a) = Inr (embeddings a)"
    by (simp_all add: gemini_sent_def)
  from i show "length (ids a) = length (documents a)" by (metis doc_ids_nth(1))
  from m show "length (metadatas a) = length (documents a)" by (metis doc_metadatas_nth(1))
  from i m show "\<forall>i<length (documents a). chunk_index (metadatas a ! i) = i \<and>
         ids a ! i = source (metadatas a ! i) @ ''-'' @ string_of_nat i"
    by (metis doc_ids_nth(2) doc_metadatas_nth(2) metadata.select_convs(1,2))
  from g show "\<exists>es. embedContent e EMBEDDING_MODEL (map (\<lambda>t. [t]) (documents a)) = Inr (Some es) \<and>
         embeddings a = map embedding_values es"
    by (auto simp: generateEmbeddings_def split: sum.splits option.splits if_splits)
next
  assume "a' \<in> set (new_calls st (snd (ingestDocumentsXenova e st)))"
  from ingestDocumentsXenova_calls [OF this] obtain f where
    s: "xenova_sent e (active_extractor e st) f a'" by blast
  then have i: "ids a' = doc_ids f (length (documents a'))"
    and m: "metadatas a' = doc_metadatas f (length (documents a'))"
    by (simp_all add: xenova_sent_def)
  from s obtain ex tensor where x: "active_extractor e st = Inr ex" "ex (documents a') = Inr tensor"
    "embeddings_loop tensor (length (documents a')) 0 [] = Inr (embeddings a')"
    by (auto simp: xenova_sent_def split: sum.splits)
  from embeddings_loop_rows [OF x(3)]
  have r: "length (embeddings a') = length (documents a')"
    "\<forall>k<length (documents a'). tensor k = Inr (embeddings a' ! k)" by simp_all
  from i show "length (ids a') = length (documents a')" by (metis doc_ids_nth(1))
  from m show "length (metadatas a') = length (documents a')" by (metis doc_metadatas_nth(1))
  from r show "length (embeddings a') = length (documents a')" by simp
  from i m show "\<forall>i<length (documents a'). chunk_index (metadatas a' ! i) = i \<and>
         ids a' ! i = source (metadatas a' ! i) @ ''-'' @ string_of_nat i"
    by (metis doc_ids_nth(2) doc_metadatas_nth(2) metadata.select_convs(1,2))
  from x r show "\<exists>ex tensor. active_extractor e st = Inr ex \<and> ex (documents a') = Inr tensor \<and>
         (\<forall>i<length (documents a'). tensor i = Inr (embeddings a' ! i))" by blast
qed

text \<open>
  The claim as stated fails for the cloud pipeline: with an API that answers two chunks with
  one vector, the upsert is called with two ids and one embedding.
\<close>

theorem upsert_arrays_equal_length_counterexample:
  "new_calls init_state (snd (ingestDocuments short_env init_state)) =
     [\<lparr>ids = [''a.pdf-0'', ''a.pdf-1''], embeddings = [[0]],
       documents = [''Hell'', ''o world'' @ [CHR 0x0A, CHR 0x0A]],
       metadatas = [\<lparr>source = ''a.pdf'', chunk_index = 0\<rparr>, \<lparr>source = ''a.pdf'', chunk_index = 1\<rparr>]\<rparr>]
   \<and> length (embeddings (hd (new_calls init_state (snd (ingestDocuments short_env init_state)))))
       \<noteq> length (ids (hd (new_calls init_state (snd (ingestDocuments short_env init_state)))))"
  by (simp add: new_calls_def short_env_def ingestDocuments_def ingest_loop_step demo_unfold)

text \<open>
  C4, as amended. The local provider returns exactly one vector per input text, the vector
  at \<open>i\<close> being row \<open>i\<close> of the model's result for the batch. The cloud provider returns the
  vectors of the API response in the order of the response, which is never empty; its output
  is as long as the response is.
\<close>

theorem embed_output_follows_provider:
  "(generateEmbeddings e chunks = Inr out \<longrightarrow>
      (\<exists>es. embedContent e EMBEDDING_MODEL (map (\<lambda>t. [t]) chunks) = Inr (Some es) \<and> es \<noteq> [] \<and>
         out = map embedding_values es))
   \<and> (fst (generateEmbeddingsXenova e st chunks) = Inr out' \<longrightarrow>
      length out' = length chunks \<and>
      (\<exists>ex tensor. active_extractor e st = Inr ex \<and> ex chunks = Inr tensor \<and>
         (\<forall>i<length chunks. tensor i = Inr (out' ! i))))"
proof (intro conjI impI)
  assume "generateEmbeddings e chunks = Inr out"
  then show "\<exists>es. embedContent e EMBEDDING_MODEL (map (\<lambda>t. [t]) chunks) = Inr (Some es) \<and> es \<noteq> [] \<and>
         out = map embedding_values es"
    by (auto simp: generateEmbeddings_def split: sum.splits option.splits if_splits)
next
  assume a: "fst (generateEmbeddingsXenova e st chunks) = Inr out'"
  then obtain ex tensor where x: "active_extractor e st = Inr ex" "ex chunks = Inr tensor"
    "embeddings_loop tensor (length chunks) 0 [] = Inr out'"
    by (auto simp: generateEmbeddingsXenova_closed split: sum.splits)
  from embeddings_loop_rows [OF x(3)] x
  show "length out' = length chunks" 
    and "\<exists>ex tensor. active_extractor e st = Inr ex \<and> ex chunks = Inr tensor \<and>
         (\<forall>i<length chunks. tensor i = Inr (out' ! i))" by auto
qed

text \<open>
  The claim as stated fails for the cloud provider: it accepts two texts and returns the
  single vector of the API response.
\<close>

theorem embed_output_length_counterexample:
  "generateEmbeddings short_env [''first chunk'', ''second chunk''] = Inr [[0]]
   \<and> length [[0 :: real]] \<noteq> length [''first chunk'', ''second chunk'']"
  by (simp add: generateEmbeddings_def short_env_def demo_env_def)

theorem upsert_arrays_follow_the_chunks_witness:
  "demo_call_a \<in> set (new_calls init_state (snd (ingestDocuments demo_env init_state)))
   \<and> demo_local_call_a \<in> set (new_calls init_state (snd (ingestDocumentsXenova demo_env init_state)))
   \<and> length (ids demo_call_a) = length (documents demo_call_a)
   \<and> length (metadatas demo_call_a) = length (documents demo_call_a)
   \<and> (\<exists>es. embedContent demo_env EMBEDDING_MODEL (map (\<lambda>t. [t]) (documents demo_call_a)) = Inr (Some es)
         \<and> embeddings demo_call_a = map embedding_values es)
   \<and> length (embeddings demo_local_call_a) = length (documents demo_local_call_a)
   \<and> (\<exists>ex tensor. active_extractor demo_env init_state = Inr ex
         \<and> ex (documents demo_local_call_a) = Inr tensor
         \<and> (\<forall>i<length (documents demo_local_call_a). tensor i = Inr (embeddings demo_local_call_a ! i)))"
proof -
  have h1: "demo_call_a \<in> set (new_calls init_state (snd (ingestDocuments demo_env init_state)))"
    by (simp add: new_calls_def demo_cloud_calls) (simp add: init_state_def)
  have h2: "demo_local_call_a \<in> set (new_calls init_state (snd (ingestDocumentsXenova demo_env init_state)))"
    by (simp add: new_calls_def demo_local_calls) (simp add: init_state_def)
  from h1 h2 upsert_arrays_follow_the_chunks [of demo_call_a init_state demo_env demo_local_call_a]
  show ?thesis by blast
qed

theorem embed_output_follows_provider_witness:
  "generateEmbeddings demo_env [''Hell'', ''o''] = Inr [[4], [1]]
   \<and> fst (generateEmbeddingsXenova demo_env init_state [''Hell'', ''o'']) = Inr [[4], [1]]
   \<and> (\<exists>es. embedContent demo_env EMBEDDING_MODEL (map (\<lambda>t. [t]) [''Hell'', ''o'']) = Inr (Some es)
         \<and> es \<noteq> [] \<and> [[4], [1]] = map embedding_values es)
   \<and> length [[4], [1 :: real]] = length [''Hell'', ''o'']
   \<and> (\<exists>ex tensor. active_extractor demo_env init_state = Inr ex \<and> ex [''Hell'', ''o''] = Inr tensor
         \<and> (\<forall>i<length [''Hell'', ''o'']. tensor i = Inr ([[4], [1]] ! i)))"
proof -
  have h1: "generateEmbeddings demo_env [''Hell'', ''o''] = Inr [[4], [1]]"
    by (simp add: generateEmbeddings_def demo_env_def)
  have h2: "fst (generateEmbeddingsXenova demo_env init_state [''Hell'', ''o'']) = Inr [[4], [1]]"
    by (simp add: generateEmbeddingsXenova_closed demo_unfold)
  from h1 h2 embed_output_follows_provider
               [of demo_env "[''Hell'', ''o'']" "[[4], [1]]" init_state "[[4], [1]]"]
  show ?thesis by blast
qed

section \<open>Directories without a matching file\<close>

lemma connection_failure_closed:
  "getOrCreateCollection e name =
     (if chroma_getOrCreateCollection e name = None then Inr ()
      else Inl (''Failed to connect to ChromaDB. Ensure the service is running at '' @ CHROMA_HOST e))"
  by (simp add: getOrCreateCollection_def split: option.splits)

text \<open>
  C6, as amended. When the directory can be listed and no listed name ends in \<^verbatim>\<open>.pdf\<close>,
  either pipeline returns, without an exception, a result with \<open>success = False\<close> and
  \<open>count = 0\<close> and makes no upsert: the error is the "No PDF files found" message when the
  collection could be obtained, and the connection message when it could not, since the
  collection is requested before the directory is read.
\<close>

theorem no_matching_files_is_reported:
  "readdir e (DOCUMENTS_DIR e) = Inr names \<Longrightarrow> pdf_files names = [] \<Longrightarrow>
   ingestDocuments e st =
     (Returns \<lparr>success = False, count = 0,
        error = Some (if chroma_getOrCreateCollection e COLLECTION_NAME = None
                      then ''No PDF files found in the directory: '' @ DOCUMENTS_DIR e
                      else ''Failed to connect to ChromaDB. Ensure the service is running at ''
                             @ CHROMA_HOST e)\<rparr>, st)
   \<and> ingestDocumentsXenova e st =
     (Returns \<lparr>success = False, count = 0,
        error = Some (if chroma_getOrCreateCollection e COLLECTION_NAME_XENOVA = None
                      then ''No PDF files found in the directory: '' @ DOCUMENTS_DIR e
                      else ''Failed to connect to ChromaDB. Ensure the service is running at ''
                             @ CHROMA_HOST e)\<rparr>, release st)
   \<and> calls (release st) = calls st \<and> store (release st) = store st"
  by (simp add: ingestDocuments_def ingestDocumentsXenova_def connection_failure_closed
      no_pdf_files_def failure_def)

theorem no_matching_files_is_reported_witness:
  "readdir empty_dir_env (DOCUMENTS_DIR empty_dir_env) = Inr [''notes.txt'']
   \<and> readdir down_env (DOCUMENTS_DIR down_env) = Inr [''notes.txt'']
   \<and> pdf_files [''notes.txt''] = []
   \<and> ingestDocuments empty_dir_env init_state =
       (Returns \<lparr>success = False, count = 0,
          error = Some ''No PDF files found in the directory: /app/documents''\<rparr>, init_state)
   \<and> ingestDocumentsXenova down_env init_state =
       (Returns \<lparr>success = False, count = 0,
          error = Some ''Failed to connect to ChromaDB. Ensure the service is running at http://localhost:8000''\<rparr>,
        release init_state)"
proof -
  have p: "pdf_files [''notes.txt''] = []" by (simp add: pdf_files_def endsWith_def)
  have r1: "readdir empty_dir_env (DOCUMENTS_DIR empty_dir_env) = Inr [''notes.txt'']"
    by (simp add: empty_dir_env_def demo_env_def)
  have r2: "readdir down_env (DOCUMENTS_DIR down_env) = Inr [''notes.txt'']"
    by (simp add: down_env_def demo_env_def)
  from no_matching_files_is_reported [OF r1 p, of init_state]
       no_matching_files_is_reported [OF r2 p, of init_state] p r1 r2
  show ?thesis by (simp add: down_env_def empty_dir_env_def demo_env_def)
qed

text \<open>
  The claim as stated fails when the vector store is unreachable: the directory has no PDF
  file and the error is the connection message.
\<close>

theorem no_matching_files_error_counterexample:
  "readdir down_env (DOCUMENTS_DIR down_env) = Inr [''notes.txt'']
   \<and> pdf_files [''notes.txt''] = []
   \<and> ingestDocuments down_env init_state =
       (Returns \<lparr>success = False, count = 0,
          error = Some ''Failed to connect to ChromaDB. Ensure the service is running at http://localhost:8000''\<rparr>,
        init_state)"
  by (simp add: ingestDocuments_def getOrCreateCollection_def down_env_def demo_env_def
      pdf_files_def endsWith_def failure_def)

lemma endsWith_iff: "endsWith s suf \<longleftrightarrow> (\<exists>base. s = base @ suf)"
proof
  assume "endsWith s suf"
  then have "s = take (length s - length suf) s @ suf"
    by (metis append_take_drop_id endsWith_def)
  then show "\<exists>base. s = base @ suf" ..
next
  assume "\<exists>base. s = base @ suf"
  then show "endsWith s suf" by (auto simp: endsWith_def)
qed

text \<open>
  C10, as amended. Both pipelines process only listed names that end in the exact suffix
  \<^verbatim>\<open>.pdf\<close>; a name ending in \<^verbatim>\<open>.PDF\<close> does not match. When no listed name matches and the
  collection could be obtained, the result is the "No PDF files found" failure and nothing
  is upserted.
\<close>

theorem only_lower_case_pdf_suffix:
  "readdir e (DOCUMENTS_DIR e) = Inr names \<Longrightarrow>
   (\<forall>a\<in>set (new_calls st (snd (ingestDocuments e st)))
        \<union> set (new_calls st (snd (ingestDocumentsXenova e st))).
      \<forall>m\<in>set (metadatas a). source m \<in> set names \<and> (\<exists>base. source m = base @ ''.pdf''))
   \<and> ((\<forall>n\<in>set names. \<not> endsWith n ''.pdf'') \<longrightarrow>
        (chroma_getOrCreateCollection e COLLECTION_NAME = None \<longrightarrow>
           ingestDocuments e st = (Returns (no_pdf_files e), st))
        \<and> (chroma_getOrCreateCollection e COLLECTION_NAME_XENOVA = None \<longrightarrow>
           ingestDocumentsXenova e st = (Returns (no_pdf_files e), release st)))
   \<and> \<not> endsWith (base @ ''.PDF'') ''.pdf''"
proof (intro conjI ballI impI)
  fix a m
  assume r: "readdir e (DOCUMENTS_DIR e) = Inr names"
    and a: "a \<in> set (new_calls st (snd (ingestDocuments e st)))
              \<union> set (new_calls st (snd (ingestDocumentsXenova e st)))"
    and m: "m \<in> set (metadatas a)"
  from a r ingestDocuments_calls [of a st e] ingestDocumentsXenova_calls [of a st e]
  obtain f where f: "f \<in> set (pdf_files names)"
     "metadatas a = doc_metadatas f (length (documents a))"
    by (auto simp: gemini_sent_def xenova_sent_def)
  from m f(2) have "source m = f" by (auto simp: doc_metadatas_def)
  with f(1) show "source m \<in> set names" "\<exists>base. source m = base @ ''.pdf''"
    by (auto simp: pdf_files_def endsWith_iff)
next
  assume "readdir e (DOCUMENTS_DIR e) = Inr names" "\<forall>n\<in>set names. \<not> endsWith n ''.pdf''"
    "chroma_getOrCreateCollection e COLLECTION_NAME = None"
  moreover from this have "pdf_files names = []" by (simp add: pdf_files_def)
  ultimately show "ingestDocuments e st = (Returns (no_pdf_files e), st)"
    by (simp add: ingestDocuments_def getOrCreateCollection_def)
next
  assume "readdir e (DOCUMENTS_DIR e) = Inr names" "\<forall>n\<in>set names. \<not> endsWith n ''.pdf''"
    "chroma_getOrCreateCollection e COLLECTION_NAME_XENOVA = None"
  moreover from this have "pdf_files names = []" by (simp add: pdf_files_def)
  ultimately show "ingestDocumentsXenova e st = (Returns (no_pdf_files e), release st)"
    by (simp add: ingestDocumentsXenova_def getOrCreateCollection_def)
next
  show "\<not> endsWith (base @ ''.PDF'') ''.pdf''" by (simp add: endsWith_def)
qed

theorem only_lower_case_pdf_suffix_witness:
  "readdir upper_env (DOCUMENTS_DIR upper_env) = Inr [''REPORT.PDF'', ''scan.Pdf'']
   \<and> \<not> endsWith ''REPORT.PDF'' ''.pdf'' \<and> \<not> endsWith ''scan.Pdf'' ''.pdf''
   \<and> chroma_getOrCreateCollection upper_env COLLECTION_NAME = None
   \<and> chroma_getOrCreateCollection upper_env COLLECTION_NAME_XENOVA = None
   \<and> ingestDocuments upper_env init_state = (Returns (no_pdf_files upper_env), init_state)
   \<and> ingestDocumentsXenova upper_env init_state = (Returns (no_pdf_files upper_env), release init_state)
   \<and> readdir demo_env (DOCUMENTS_DIR demo_env) = Inr [''a.pdf'', ''notes.txt'', ''b.pdf'']
   \<and> demo_call_a \<in> set (new_calls init_state (snd (ingestDocuments demo_env init_state)))
   \<and> \<lparr>source = ''a.pdf'', chunk_index = 1\<rparr> \<in> set (metadatas demo_call_a)
   \<and> source \<lparr>source = ''a.pdf'', chunk_index = 1\<rparr> \<in> set [''a.pdf'', ''notes.txt'', ''b.pdf'']
   \<and> (\<exists>base. source \<lparr>source = ''a.pdf'', chunk_index = 1\<rparr> = base @ ''.pdf'')"
proof -
  have r: "readdir upper_env (DOCUMENTS_DIR upper_env) = Inr [''REPORT.PDF'', ''scan.Pdf'']"
    by (simp add: upper_env_def demo_env_def)
  have n: "\<not> endsWith ''REPORT.PDF'' ''.pdf''" "\<not> endsWith ''scan.Pdf'' ''.pdf''"
    by (simp_all add: endsWith_def)
  then have n': "\<forall>n\<in>set [''REPORT.PDF'', ''scan.Pdf'']. \<not> endsWith n ''.pdf''" by simp
  have c: "chroma_getOrCreateCollection upper_env COLLECTION_NAME = None"
    "chroma_getOrCreateCollection upper_env COLLECTION_NAME_XENOVA = None"
    by (simp_all add: upper_env_def demo_env_def)
  have d: "readdir demo_env (DOCUMENTS_DIR demo_env) = Inr [''a.pdf'', ''notes.txt'', ''b.pdf'']"
    by (simp add: demo_env_def)
  have h: "demo_call_a \<in> set (new_calls init_state (snd (ingestDocuments demo_env init_state)))"
    by (simp add: new_calls_def demo_cloud_calls) (simp add: init_state_def)
  have m: "\<lparr>source = ''a.pdf'', chunk_index = 1\<rparr> \<in> set (metadatas demo_call_a)"
    by (simp add: demo_call_a_def)
  from only_lower_case_pdf_suffix [OF r, of init_state] n' c
  have u: "ingestDocuments upper_env init_state = (Returns (no_pdf_files upper_env), init_state)"
    "ingestDocumentsXenova upper_env init_state = (Returns (no_pdf_files upper_env), release init_state)"
    by blast+
  from only_lower_case_pdf_suffix [OF d, of init_state] h m
  have "source \<lparr>source = ''a.pdf'', chunk_index = 1\<rparr> \<in> set [''a.pdf'', ''notes.txt'', ''b.pdf'']
     \<and> (\<exists>base. source \<lparr>source = ''a.pdf'', chunk_index = 1\<rparr> = base @ ''.pdf'')"
    by blast
  with r n c u d h m show ?thesis by blast
qed

text \<open>
  The claim as stated fails when the vector store is unreachable: the directory holds only
  upper-case variants and the error is the connection message.
\<close>

theorem only_lower_case_pdf_suffix_counterexample:
  "readdir upper_down_env (DOCUMENTS_DIR upper_down_env) = Inr [''REPORT.PDF'', ''scan.Pdf'']
   \<and> pdf_files [''REPORT.PDF'', ''scan.Pdf''] = []
   \<and> ingestDocumentsXenova upper_down_env init_state =
       (Returns \<lparr>success = False, count = 0,
          error = Some ''Failed to connect to ChromaDB. Ensure the service is running at http://localhost:8000''\<rparr>,
        release init_state)
   \<and> fst (ingestDocumentsXenova upper_down_env init_state) \<noteq> Returns (no_pdf_files upper_down_env)"
  by (simp add: ingestDocumentsXenova_def getOrCreateCollection_def upper_down_env_def
      upper_env_def demo_env_def pdf_files_def endsWith_def failure_def no_pdf_files_def)

section \<open>Documents without text\<close>

lemma local_run_skips_empty_document:
  "extractTextFromPdfXenova e (doc_path e f) = Inr t \<Longrightarrow> t = [] \<or> splitText e splitter t = [] \<Longrightarrow>
   ingest_loop_xenova e (f # fs) st c =
     ingest_loop_xenova e fs
       (warn st (if t = [] then skip_no_text f else skip_no_chunks f)) c"
  by (auto simp: ingest_loop_xenova_step)

lemma cloud_run_stops_at_empty_document:
  "extractTextFromPdf e (doc_path e f) = Returns t \<Longrightarrow> chunkText e t = [] \<Longrightarrow>
   embedContent e EMBEDDING_MODEL [] = r \<Longrightarrow> r = Inr None \<or> r = Inr (Some []) \<or> r = Inl err \<Longrightarrow>
   ingest_loop e (f # fs) st c =
     (Throws (case r of Inl x \<Rightarrow> x | Inr _ \<Rightarrow> embeddings_missing), st)"
  by (auto simp: ingest_loop_step generateEmbeddings_def)

text \<open>
  C1. A document whose extraction or chunking gives nothing is skipped with a warning, the
  run goes on with the next document and succeeds for the rest. The local pipeline does so
  (\<open>local_run_skips_empty_document\<close>). The cloud pipeline does not: on a directory whose first
  file is a scan without text it sends the empty chunk list to the embedding API, takes the
  missing embeddings for a failure and ends the run with \<open>success = False\<close>, \<open>count = 0\<close>
  and no upsert at all, the second file included. The local pipeline, on the same
  directory, warns, skips the scan and stores the second file.
\<close>

theorem empty_document_fails_cloud_run:
  "ingestDocuments scanned_env init_state =
     (Returns \<lparr>success = False, count = 0, error = Some embeddings_missing\<rparr>, init_state)
   \<and> fst (ingestDocumentsXenova scanned_env init_state) =
       Returns \<lparr>success = True, count = 1, error = None\<rparr>
   \<and> calls (snd (ingestDocumentsXenova scanned_env init_state)) = [demo_local_call_b]
   \<and> warnings (snd (ingestDocumentsXenova scanned_env init_state)) = [skip_no_text ''a.pdf'']"
  by (simp add: ingestDocuments_def ingestDocumentsXenova_def ingest_loop_step
      ingest_loop_xenova_step scanned_env_def demo_unfold demo_local_call_b_def failure_def)

section \<open>Failure after some documents are stored\<close>

lemma ingest_loop_append:
  "ingest_loop e (xs @ ys) st c =
     (case ingest_loop e xs st c of
        (Returns n, st1) \<Rightarrow> ingest_loop e ys st1 n
      | (Throws err, st1) \<Rightarrow> (Throws err, st1)
      | (Never, st1) \<Rightarrow> (Never, st1))"
proof (induction xs arbitrary: st c)
  case Nil
  then show ?case by simp
next
  case (Cons f xs)
  show ?case
    by (simp add: ingest_loop_step Cons.IH Let_def
        split: outcome.splits sum.splits prod.splits option.splits)
qed

lemma ingest_loop_xenova_append:
  "ingest_loop_xenova e (xs @ ys) st c =
     (case ingest_loop_xenova e xs st c of
        (Returns n, st1) \<Rightarrow> ingest_loop_xenova e ys st1 n
      | (Throws err, st1) \<Rightarrow> (Throws err, st1)
      | (Never, st1) \<Rightarrow> (Never, st1))"
proof (induction xs arbitrary: st c)
  case Nil
  then show ?case by simp
next
  case (Cons f xs)
  show ?case
    by (simp add: ingest_loop_xenova_step Cons.IH Let_def
        split: outcome.splits sum.splits prod.splits option.splits)
qed

lemma ingest_loop_single_throws:
  assumes "ingest_loop e [f] st c = (Throws err, st2)"
  shows "st2 = st \<or> (\<exists>a. fst (upsert e (store st) a) = Some err \<and>
                  st2 = st\<lparr>calls := calls st @ [a], store := snd (upsert e (store st) a)\<rparr>)"
proof (cases "extractTextFromPdf e (doc_path e f)")
  case (Returns t)
  show ?thesis
  proof (cases "generateEmbeddings e (chunkText e t)")
    case (Inl x)
    with Returns assms show ?thesis by (simp add: ingest_loop_step)
  next
    case (Inr embs)
    define a where "a = \<lparr>ids = doc_ids f (length (chunkText e t)), embeddings = embs,
                          documents = chunkText e t,
                          metadatas = doc_metadatas f (length (chunkText e t))\<rparr>"
    obtain r col where up: "upsert e (store st) a = (r, col)" by (cases "upsert e (store st) a")
    with Returns Inr assms have "r = Some err" "st2 = st\<lparr>calls := calls st @ [a], store := col\<rparr>"
      by (cases r; simp add: ingest_loop_step a_def Let_def)+
    with up have "fst (upsert e (store st) a) = Some err \<and>
        st2 = st\<lparr>calls := calls st @ [a], store := snd (upsert e (store st) a)\<rparr>"
      by simp
    then show ?thesis by blast
  qed
next
  case (Throws x)
  with assms show ?thesis by (simp add: ingest_loop_step)
next
  case Never
  with assms show ?thesis by (simp add: ingest_loop_step)
qed

lemma ingest_loop_xenova_single_throws:
  "ingest_loop_xenova e [f] st c = (Throws err, st2) \<Longrightarrow>
   (calls st2 = calls st \<and> store st2 = store st)
   \<or> (\<exists>a. fst (upsert e (store st) a) = Some err \<and> calls st2 = calls st @ [a]
             \<and> store st2 = snd (upsert e (store st) a))"
  by (auto simp: ingest_loop_xenova_step Let_def
      split: outcome.splits sum.splits prod.splits option.splits if_splits)

text \<open>
  C9. Let the run have processed the files \<open>xs\<close> with success, \<open>n\<close> chunks counted and the
  state \<open>st1\<close> reached, and let the next file throw. Then the run returns
  \<open>success = False\<close> with \<open>count = 0\<close>, whatever \<open>n\<close> is, and the state left behind is \<open>st1\<close>
  with all its upserts: unchanged when the file failed before its upsert (an embedding
  failure, say), and with the one failed upsert call added otherwise. Nothing is rolled back.
\<close>

theorem failed_run_reports_zero_and_keeps_rows:
  "(readdir e (DOCUMENTS_DIR e) = Inr names \<and> pdf_files names = xs @ f # ys
      \<and> chroma_getOrCreateCollection e COLLECTION_NAME = None
      \<and> ingest_loop e xs st 0 = (Returns n, st1)
      \<and> ingest_loop e [f] st1 n = (Throws err, st2) \<longrightarrow>
    ingestDocuments e st = (Returns \<lparr>success = False, count = 0, error = Some err\<rparr>, st2)
    \<and> (st2 = st1
        \<or> (\<exists>a. fst (upsert e (store st1) a) = Some err
              \<and> st2 = st1\<lparr>calls := calls st1 @ [a], store := snd (upsert e (store st1) a)\<rparr>)))
   \<and> (readdir e (DOCUMENTS_DIR e) = Inr names \<and> pdf_files names = xs @ f # ys
      \<and> chroma_getOrCreateCollection e COLLECTION_NAME_XENOVA = None
      \<and> ingest_loop_xenova e xs st 0 = (Returns n', st1')
      \<and> ingest_loop_xenova e [f] st1' n' = (Throws err', st2') \<longrightarrow>
    ingestDocumentsXenova e st =
      (Returns \<lparr>success = False, count = 0, error = Some err'\<rparr>, release st2')
    \<and> ((calls st2' = calls st1' \<and> store st2' = store st1')
        \<or> (\<exists>a. fst (upsert e (store st1') a) = Some err' \<and> calls st2' = calls st1' @ [a]
              \<and> store st2' = snd (upsert e (store st1') a))))"
proof (intro conjI impI; elim conjE)
  assume a: "readdir e (DOCUMENTS_DIR e) = Inr names" "pdf_files names = xs @ f # ys"
    "chroma_getOrCreateCollection e COLLECTION_NAME = None"
    "ingest_loop e xs st 0 = (Returns n, st1)" "ingest_loop e [f] st1 n = (Throws err, st2)"
  have "ingest_loop e (xs @ [f] @ ys) st 0 = (Throws err, st2)"
    using a(4,5) by (simp only: ingest_loop_append) simp
  with a(1,2,3)
  show "ingestDocuments e st = (Returns \<lparr>success = False, count = 0, error = Some err\<rparr>, st2)"
    by (simp add: ingestDocuments_def getOrCreateCollection_def failure_def)
  from ingest_loop_single_throws [OF a(5)]
  show "st2 = st1 \<or> (\<exists>a. fst (upsert e (store st1) a) = Some err
              \<and> st2 = st1\<lparr>calls := calls st1 @ [a], store := snd (upsert e (store st1) a)\<rparr>)" .
next
  assume a: "readdir e (DOCUMENTS_DIR e) = Inr names" "pdf_files names = xs @ f # ys"
    "chroma_getOrCreateCollection e COLLECTION_NAME_XENOVA = None"
    "ingest_loop_xenova e xs st 0 = (Returns n', st1')"
    "ingest_loop_xenova e [f] st1' n' = (Throws err', st2')"
  have "ingest_loop_xenova e (xs @ [f] @ ys) st 0 = (Throws err', st2')"
    using a(4,5) by (simp only: ingest_loop_xenova_append) simp
  with a(1,2,3)
  show "ingestDocumentsXenova e st =
      (Returns \<lparr>success = False, count = 0, error = Some err'\<rparr>, release st2')"
    by (simp add: ingestDocumentsXenova_def getOrCreateCollection_def failure_def)
  from ingest_loop_xenova_single_throws [OF a(5)]
  show "(calls st2' = calls st1' \<and> store st2' = store st1')
        \<or> (\<exists>a. fst (upsert e (store st1') a) = Some err' \<and> calls st2' = calls st1' @ [a]
              \<and> store st2' = snd (upsert e (store st1') a))" .
qed

lemma failing_cloud_first:
  "fst (ingest_loop failing_env [''a.pdf''] init_state 0) = Returns 2"
  "calls (snd (ingest_loop failing_env [''a.pdf''] init_state 0)) = [demo_call_a]"
  "store (snd (ingest_loop failing_env [''a.pdf''] init_state 0)) ''a.pdf-1'' =
     Some \<lparr>row_embedding = [9], row_document = ''o world'' @ [CHR 0x0A, CHR 0x0A],
           row_metadata = \<lparr>source = ''a.pdf'', chunk_index = 1\<rparr>\<rparr>"
  by (simp_all add: ingest_loop_step failing_env_def demo_unfold demo_call_a_def)

lemma failing_cloud_second:
  "ingest_loop failing_env [''b.pdf''] st c = (Throws ''quota exceeded'', st)"
  by (simp add: ingest_loop_step failing_env_def demo_unfold)

lemma failing_local_first:
  "fst (ingest_loop_xenova failing_env [''a.pdf''] init_state 0) = Returns 2"
  "calls (snd (ingest_loop_xenova failing_env [''a.pdf''] init_state 0)) = [demo_local_call_a]"
  "active_extractor failing_env (snd (ingest_loop_xenova failing_env [''a.pdf''] init_state 0)) =
     Inr (\<lambda>chunks. if chunks = [''Hi''] then Inl ''out of memory'' else demo_extractor chunks)"
  by (simp_all add: ingest_loop_xenova_step failing_env_def demo_unfold demo_local_call_a_def)

lemma failing_local_second:
  "active_extractor failing_env st =
     Inr (\<lambda>chunks. if chunks = [''Hi''] then Inl ''out of memory'' else demo_extractor chunks) \<Longrightarrow>
   fst (ingest_loop_xenova failing_env [''b.pdf''] st c) = Throws ''out of memory''"
  by (simp add: ingest_loop_xenova_step)
     (simp add: failing_env_def demo_env_def doc_path_def extractTextFromPdfXenova_def trim_def
        is_whitespace_def demo_split_def)

theorem failed_run_reports_zero_and_keeps_rows_witness:
  "ingestDocuments failing_env init_state =
     (Returns \<lparr>success = False, count = 0, error = Some ''quota exceeded''\<rparr>,
      snd (ingest_loop failing_env [''a.pdf''] init_state 0))
   \<and> fst (ingest_loop failing_env [''a.pdf''] init_state 0) = Returns 2
   \<and> calls (snd (ingest_loop failing_env [''a.pdf''] init_state 0)) = [demo_call_a]
   \<and> ingestDocumentsXenova failing_env init_state =
     (Returns \<lparr>success = False, count = 0, error = Some ''out of memory''\<rparr>,
      release (snd (ingest_loop_xenova failing_env [''b.pdf'']
                 (snd (ingest_loop_xenova failing_env [''a.pdf''] init_state 0)) 2)))
   \<and> fst (ingest_loop_xenova failing_env [''a.pdf''] init_state 0) = Returns 2
   \<and> calls (snd (ingest_loop_xenova failing_env [''b.pdf'']
                 (snd (ingest_loop_xenova failing_env [''a.pdf''] init_state 0)) 2)) = [demo_local_call_a]"
proof -
  define st1 where "st1 = snd (ingest_loop failing_env [''a.pdf''] init_state 0)"
  define st1' where "st1' = snd (ingest_loop_xenova failing_env [''a.pdf''] init_state 0)"
  define st2' where "st2' = snd (ingest_loop_xenova failing_env [''b.pdf''] st1' 2)"
  have r: "readdir failing_env (DOCUMENTS_DIR failing_env) = Inr [''a.pdf'', ''notes.txt'', ''b.pdf'']"
    by (simp add: failing_env_def demo_env_def)
  have p: "pdf_files [''a.pdf'', ''notes.txt'', ''b.pdf''] = [''a.pdf''] @ ''b.pdf'' # []"
    by (simp add: pdf_files_def endsWith_def)
  have c: "chroma_getOrCreateCollection failing_env COLLECTION_NAME = None"
    "chroma_getOrCreateCollection failing_env COLLECTION_NAME_XENOVA = None"
    by (simp_all add: failing_env_def demo_env_def)
  have l1: "ingest_loop failing_env [''a.pdf''] init_state 0 = (Returns 2, st1)"
    unfolding st1_def using failing_cloud_first(1) by (metis prod.collapse)
  have l2: "ingest_loop failing_env [''b.pdf''] st1 2 = (Throws ''quota exceeded'', st1)"
    by (rule failing_cloud_second)
  have x1: "ingest_loop_xenova failing_env [''a.pdf''] init_state 0 = (Returns 2, st1')"
    unfolding st1'_def using failing_local_first(1) by (metis prod.collapse)
  have x2: "ingest_loop_xenova failing_env [''b.pdf''] st1' 2 = (Throws ''out of memory'', st2')"
    unfolding st2'_def using failing_local_second [OF failing_local_first(3), of 2]
    by (metis prod.collapse st1'_def)
  from failed_run_reports_zero_and_keeps_rows
         [of failing_env "[''a.pdf'', ''notes.txt'', ''b.pdf'']" "[''a.pdf'']" "''b.pdf''" "[]"
             init_state 2 st1 "''quota exceeded''" st1 2 st1' "''out of memory''" st2']
       r p c l1 l2 x1 x2
  have g: "ingestDocuments failing_env init_state =
      (Returns \<lparr>success = False, count = 0, error = Some ''quota exceeded''\<rparr>, st1)"
    and x: "ingestDocumentsXenova failing_env init_state =
      (Returns \<lparr>success = False, count = 0, error = Some ''out of memory''\<rparr>, release st2')"
    by blast+
  have cs: "calls st2' = [demo_local_call_a]"
    unfolding st2'_def st1'_def
    by (simp add: ingest_loop_xenova_step failing_env_def demo_unfold demo_local_call_a_def)
  from g x cs failing_cloud_first failing_local_first show ?thesis
    by (simp add: st1_def st1'_def st2'_def)
qed

section \<open>Re-ingestion\<close>

lemma fold_upd_map_of:
  "fold (\<lambda>(k, r) m. m(k \<mapsto> r)) kvs col = col ++ map_of (rev kvs)"
proof (induction kvs arbitrary: col)
  case Nil
  then show ?case by simp
next
  case (Cons kv kvs)
  obtain k r where kv: "kv = (k, r)" by (cases kv)
  have "fold (\<lambda>(k, r) m. m(k \<mapsto> r)) (kv # kvs) col
      = fold (\<lambda>(k, r) m. m(k \<mapsto> r)) kvs (col(k \<mapsto> r))"
    by (simp add: kv)
  also have "\<dots> = col(k \<mapsto> r) ++ map_of (rev kvs)" by (rule Cons.IH)
  also have "\<dots> = col ++ ([k \<mapsto> r] ++ map_of (rev kvs))"
    by (rule ext) (simp add: map_add_def split: option.splits)
  also have "[k \<mapsto> r] ++ map_of (rev kvs) = map_of (rev (kv # kvs))"
    by (simp add: kv map_of_append)
  finally show ?case .
qed

lemma chroma_upsert_closed:
  "chroma_upsert col a =
     (if aligned a then (None, col ++ written a)
      else (Some ''ids, embeddings, documents and metadatas must have the same length'', col))"
  by (simp add: chroma_upsert_def written_def fold_upd_map_of)

lemma dom_written: "aligned a \<Longrightarrow> dom (written a) = set (ids a)"
proof -
  assume "aligned a"
  then have "length (rows_of a) = length (ids a)"
    by (simp add: aligned_def rows_of_def)
  then have "map fst (zip (ids a) (rows_of a)) = ids a" by simp
  then have "fst ` set (zip (ids a) (rows_of a)) = set (ids a)"
    by (metis list.set_map)
  then show ?thesis by (simp add: written_def dom_map_of_conv_image_fst)
qed

lemma ingest_loop_Cons_Returns:
  assumes "ingest_loop e (f # fs) st c = (Returns n, st')"
  shows "\<exists>embs col.
     generateEmbeddings e (gemini_chunks e f) = Inr embs \<and>
     (\<exists>t. extractTextFromPdf e (doc_path e f) = Returns t) \<and>
     upsert e (store st) (doc_args f (gemini_chunks e f) embs) = (None, col) \<and>
     ingest_loop e fs
       (st\<lparr>calls := calls st @ [doc_args f (gemini_chunks e f) embs], store := col\<rparr>)
       (c + length (gemini_chunks e f)) = (Returns n, st')"
proof (cases "extractTextFromPdf e (doc_path e f)")
  case (Returns t)
  then have gc: "gemini_chunks e f = chunkText e t" by (simp add: gemini_chunks_def)
  show ?thesis
  proof (cases "generateEmbeddings e (chunkText e t)")
    case (Inl x)
    with Returns assms show ?thesis by (simp add: ingest_loop_step)
  next
    case (Inr embs)
    obtain r col where up: "upsert e (store st) (doc_args f (chunkText e t) embs) = (r, col)"
      by (cases "upsert e (store st) (doc_args f (chunkText e t) embs)")
    with Returns Inr assms have "r = None"
      by (cases r) (simp_all add: ingest_loop_step doc_args_def Let_def)
    with up Returns Inr assms gc show ?thesis
      by (simp add: ingest_loop_step doc_args_def Let_def)
  qed
next
  case (Throws x)
  with assms show ?thesis by (simp add: ingest_loop_step)
next
  case Never
  with assms show ?thesis by (simp add: ingest_loop_step)
qed

lemma ingest_loop_Cons_intro:
  assumes "extractTextFromPdf e (doc_path e f) = Returns t"
    and "generateEmbeddings e (gemini_chunks e f) = Inr embs"
    and "upsert e (store st) (doc_args f (gemini_chunks e f) embs) = (None, col)"
  shows "ingest_loop e (f # fs) st c =
     ingest_loop e fs
       (st\<lparr>calls := calls st @ [doc_args f (gemini_chunks e f) embs], store := col\<rparr>)
       (c + length (gemini_chunks e f))"
  using assms by (simp add: ingest_loop_step gemini_chunks_def doc_args_def Let_def)

lemma run_ids_Cons:
  "run_ids chunks (f # fs) = set (doc_ids f (length (chunks f))) \<union> run_ids chunks fs"
  by (simp add: run_ids_def)

lemma doc_args_simps [simp]:
  "ids (doc_args f chunks embs) = doc_ids f (length chunks)"
  "documents (doc_args f chunks embs) = chunks"
  "embeddings (doc_args f chunks embs) = embs"
  "metadatas (doc_args f chunks embs) = doc_metadatas f (length chunks)"
  by (simp_all add: doc_args_def)

lemma ingest_loop_store:
  assumes "upsert e = chroma_upsert"
  shows "ingest_loop e fs st c = (Returns n, st') \<Longrightarrow>
     dom (store st') = dom (store st) \<union> run_ids (gemini_chunks e) fs \<and>
     (\<forall>k. k \<notin> run_ids (gemini_chunks e) fs \<longrightarrow> store st' k = store st k) \<and>
     n = c + sum_list (map (\<lambda>f. length (gemini_chunks e f)) fs)"
proof (induction fs arbitrary: st c)
  case Nil
  then show ?case by (simp add: run_ids_def)
next
  case (Cons f fs)
  from ingest_loop_Cons_Returns [OF Cons.prems] obtain embs col where
    up: "upsert e (store st) (doc_args f (gemini_chunks e f) embs) = (None, col)"
    and rest: "ingest_loop e fs
       (st\<lparr>calls := calls st @ [doc_args f (gemini_chunks e f) embs], store := col\<rparr>)
       (c + length (gemini_chunks e f)) = (Returns n, st')"
    by blast
  define a where "a = doc_args f (gemini_chunks e f) embs"
  from up assms have al: "aligned a" and col: "col = store st ++ written a"
    by (auto simp: chroma_upsert_closed a_def split: if_splits)
  from dom_written [OF al] have dw: "dom (written a) = set (doc_ids f (length (gemini_chunks e f)))"
    by (simp add: a_def)
  from Cons.IH [OF rest]
  have d: "dom (store st') = dom col \<union> run_ids (gemini_chunks e) fs"
    and fr: "\<forall>k. k \<notin> run_ids (gemini_chunks e) fs \<longrightarrow> store st' k = col k"
    and n: "n = c + length (gemini_chunks e f) + sum_list (map (\<lambda>f. length (gemini_chunks e f)) fs)"
    by simp_all
  from d col dw have "dom (store st') = dom (store st) \<union> run_ids (gemini_chunks e) (f # fs)"
    by (auto simp: run_ids_Cons)
  moreover have "store st' k = store st k" if "k \<notin> run_ids (gemini_chunks e) (f # fs)" for k
  proof -
    from that have k1: "k \<notin> run_ids (gemini_chunks e) fs" and k2: "k \<notin> dom (written a)"
      by (simp_all add: run_ids_Cons dw)
    from fr k1 have "store st' k = col k" by simp
    also from k2 col have "\<dots> = store st k" by (simp add: map_add_dom_app_simps)
    finally show ?thesis .
  qed
  moreover from n have "n = c + sum_list (map (\<lambda>f. length (gemini_chunks e f)) (f # fs))" by simp
  ultimately show ?case by blast
qed

lemma ingest_loop_restart:
  assumes "upsert e = chroma_upsert"
  shows "ingest_loop e fs s c = (Returns n, s') \<Longrightarrow>
     (\<forall>k. k \<notin> run_ids (gemini_chunks e) fs \<longrightarrow> store s k = store t k) \<Longrightarrow>
     \<exists>m t'. ingest_loop e fs t d = (Returns m, t') \<and> store t' = store s'"
proof (induction fs arbitrary: s t c d)
  case Nil
  then show ?case by (auto simp: run_ids_def)
next
  case (Cons f fs)
  from ingest_loop_Cons_Returns [OF Cons.prems(1)] obtain embs col tx where
    ex: "extractTextFromPdf e (doc_path e f) = Returns tx"
    and ge: "generateEmbeddings e (gemini_chunks e f) = Inr embs"
    and up: "upsert e (store s) (doc_args f (gemini_chunks e f) embs) = (None, col)"
    and rest: "ingest_loop e fs
       (s\<lparr>calls := calls s @ [doc_args f (gemini_chunks e f) embs], store := col\<rparr>)
       (c + length (gemini_chunks e f)) = (Returns n, s')"
    by blast
  define a where "a = doc_args f (gemini_chunks e f) embs"
  from up assms have al: "aligned a" and col: "col = store s ++ written a"
    by (auto simp: chroma_upsert_closed a_def split: if_splits)
  from dom_written [OF al] have dw: "dom (written a) = set (doc_ids f (length (gemini_chunks e f)))"
    by (simp add: a_def)
  from al assms have upt: "upsert e (store t) (doc_args f (gemini_chunks e f) embs)
      = (None, store t ++ written a)"
    by (simp add: chroma_upsert_closed a_def)
  have agree: "\<forall>k. k \<notin> run_ids (gemini_chunks e) fs \<longrightarrow>
      store (s\<lparr>calls := calls s @ [a], store := col\<rparr>) k
      = store (t\<lparr>calls := calls t @ [a], store := store t ++ written a\<rparr>) k"
  proof (intro allI impI)
    fix k assume k: "k \<notin> run_ids (gemini_chunks e) fs"
    show "store (s\<lparr>calls := calls s @ [a], store := col\<rparr>) k
      = store (t\<lparr>calls := calls t @ [a], store := store t ++ written a\<rparr>) k"
    proof (cases "k \<in> dom (written a)")
      case True
      then show ?thesis by (simp add: col map_add_dom_app_simps)
    next
      case False
      with k dw have "k \<notin> run_ids (gemini_chunks e) (f # fs)" by (simp add: run_ids_Cons)
      with Cons.prems(2) have "store s k = store t k" by blast
      with False show ?thesis by (simp add: col map_add_dom_app_simps)
    qed
  qed
  from Cons.IH [OF rest [folded a_def] agree, of "d + length (gemini_chunks e f)"]
  obtain m t' where
    "ingest_loop e fs (t\<lparr>calls := calls t @ [a], store := store t ++ written a\<rparr>)
       (d + length (gemini_chunks e f)) = (Returns m, t')" "store t' = store s'"
    by blast
  with ingest_loop_Cons_intro [OF ex ge upt, of fs d] show ?case
    by (auto simp: a_def)
qed

lemma ingestDocuments_success:
  assumes "ingestDocuments e st = (Returns r, st')" and "success r"
  shows "\<exists>names. chroma_getOrCreateCollection e COLLECTION_NAME = None \<and>
           readdir e (DOCUMENTS_DIR e) = Inr names \<and> pdf_files names \<noteq> [] \<and>
           ingest_loop e (pdf_files names) st 0 = (Returns (count r), st')"
proof (cases "chroma_getOrCreateCollection e COLLECTION_NAME")
  case (Some x)
  with assms show ?thesis
    by (auto simp: ingestDocuments_def getOrCreateCollection_def failure_def)
next
  case None
  show ?thesis
  proof (cases "readdir e (DOCUMENTS_DIR e)")
    case (Inl x)
    with None assms show ?thesis
      by (auto simp: ingestDocuments_def getOrCreateCollection_def failure_def)
  next
    case (Inr names)
    obtain out s where loop: "ingest_loop e (pdf_files names) st 0 = (out, s)"
      by (cases "ingest_loop e (pdf_files names) st 0")
    with None Inr assms show ?thesis
      by (cases out)
         (auto simp: ingestDocuments_def getOrCreateCollection_def failure_def no_pdf_files_def
            Let_def split: if_splits)
  qed
qed

lemma ingestDocuments_run:
  assumes "chroma_getOrCreateCollection e COLLECTION_NAME = None"
    and "readdir e (DOCUMENTS_DIR e) = Inr names" and "pdf_files names \<noteq> []"
    and "ingest_loop e (pdf_files names) st 0 = (Returns n, st')"
  shows "ingestDocuments e st = (Returns \<lparr>success = True, count = n, error = None\<rparr>, st')"
  using assms by (simp add: ingestDocuments_def getOrCreateCollection_def)

lemma cloud_reingestion:
  assumes u: "upsert e1 = chroma_upsert" "upsert e2 = chroma_upsert"
    and same: "readdir e2 (DOCUMENTS_DIR e2) = readdir e1 (DOCUMENTS_DIR e1)"
      "\<forall>f. extractTextFromPdf e2 (doc_path e2 f) = extractTextFromPdf e1 (doc_path e1 f)"
      "splitText e2 = splitText e1"
    and run1: "ingestDocuments e1 s0 = (Returns r1, s1)" "success r1"
    and run2: "ingestDocuments e2 s1 = (Returns r2, s2)" "success r2"
  shows "dom (store s2) = dom (store s1) \<and> count r2 = count r1 \<and>
         store s2 = store (snd (ingestDocuments e2 s0))"
proof -
  from ingestDocuments_success [OF run1] obtain names where
    n1: "readdir e1 (DOCUMENTS_DIR e1) = Inr names" "pdf_files names \<noteq> []"
    and l1: "ingest_loop e1 (pdf_files names) s0 0 = (Returns (count r1), s1)"
    by blast
  from ingestDocuments_success [OF run2] same(1) n1(1) have
    c2: "chroma_getOrCreateCollection e2 COLLECTION_NAME = None"
    and n2: "readdir e2 (DOCUMENTS_DIR e2) = Inr names"
    and l2: "ingest_loop e2 (pdf_files names) s1 0 = (Returns (count r2), s2)"
    by auto
  have ct: "chunkText e2 t = chunkText e1 t" for t
    by (simp add: chunkText_def same(3))
  have ch: "gemini_chunks e2 = gemini_chunks e1"
    by (rule ext) (simp add: gemini_chunks_def ct same(2) split: outcome.splits)
  from ingest_loop_store [OF u(1) l1]
  have d1: "dom (store s1) = dom (store s0) \<union> run_ids (gemini_chunks e1) (pdf_files names)"
    and f1: "\<forall>k. k \<notin> run_ids (gemini_chunks e1) (pdf_files names) \<longrightarrow> store s1 k = store s0 k"
    and c1: "count r1 = 0 + sum_list (map (\<lambda>f. length (gemini_chunks e1 f)) (pdf_files names))"
    by blast+
  from ingest_loop_store [OF u(2) l2] ch
  have d2: "dom (store s2) = dom (store s1) \<union> run_ids (gemini_chunks e1) (pdf_files names)"
    and c2': "count r2 = 0 + sum_list (map (\<lambda>f. length (gemini_chunks e1 f)) (pdf_files names))"
    by simp_all
  from f1 ch have "\<forall>k. k \<notin> run_ids (gemini_chunks e2) (pdf_files names) \<longrightarrow> store s1 k = store s0 k"
    by simp
  from ingest_loop_restart [OF u(2) l2 this, of 0] obtain m t' where
    l0: "ingest_loop e2 (pdf_files names) s0 0 = (Returns m, t')" and st: "store t' = store s2"
    by blast
  from ingestDocuments_run [OF c2 n2 n1(2) l0] st
  have "store s2 = store (snd (ingestDocuments e2 s0))" by simp
  with d1 d2 c1 c2' show ?thesis by auto
qed

lemma ingest_loop_xenova_Cons_skip:
  assumes "xenova_chunks e f = []"
  shows "\<exists>msg. ingest_loop_xenova e (f # fs) st c = ingest_loop_xenova e fs (warn st msg) c"
proof (cases "extractTextFromPdfXenova e (doc_path e f)")
  case (Inl err)
  then show ?thesis by (auto simp: ingest_loop_xenova_step)
next
  case (Inr t)
  with assms have "t = [] \<or> splitText e splitter t = []"
    by (auto simp: xenova_chunks_def split: if_splits)
  with Inr show ?thesis by (auto simp: ingest_loop_xenova_step)
qed

lemma ingest_loop_xenova_Cons_closed:
  assumes "xenova_chunks e f \<noteq> []"
  shows "ingest_loop_xenova e (f # fs) st c =
     (case active_extractor e st of
        Inl err \<Rightarrow> (Throws err, st)
      | Inr ex \<Rightarrow>
          (case ex (xenova_chunks e f) of
             Inl err \<Rightarrow> (Throws err, st\<lparr>extractor := Some ex\<rparr>)
           | Inr tensor \<Rightarrow>
               (case embeddings_loop tensor (length (xenova_chunks e f)) 0 [] of
                  Inl err \<Rightarrow> (Throws err, st\<lparr>extractor := Some ex\<rparr>)
                | Inr embs \<Rightarrow>
                    (case upsert e (store st) (doc_args f (xenova_chunks e f) embs) of
                       (Some err, col) \<Rightarrow>
                         (Throws err,
                          st\<lparr>extractor := Some ex,
                             calls := calls st @ [doc_args f (xenova_chunks e f) embs],
                             store := col\<rparr>)
                     | (None, col) \<Rightarrow>
                         ingest_loop_xenova e fs
                           (st\<lparr>extractor := Some ex,
                              calls := calls st @ [doc_args f (xenova_chunks e f) embs],
                              store := col\<rparr>)
                           (c + length (xenova_chunks e f))))))"
proof (cases "extractTextFromPdfXenova e (doc_path e f)")
  case (Inl err)
  with assms show ?thesis by (simp add: xenova_chunks_def)
next
  case (Inr t)
  with assms have t: "t \<noteq> []" "splitText e splitter t \<noteq> []"
    "xenova_chunks e f = splitText e splitter t"
    by (auto simp: xenova_chunks_def split: if_splits)
  with Inr show ?thesis
    by (simp add: ingest_loop_xenova_step doc_args_def Let_def
          split: sum.splits prod.splits option.splits)
qed

lemma ingest_loop_xenova_Cons_Returns:
  assumes "xenova_chunks e f \<noteq> []"
    and "ingest_loop_xenova e (f # fs) st c = (Returns n, st')"
  shows "\<exists>ex tensor embs col.
     active_extractor e st = Inr ex \<and> ex (xenova_chunks e f) = Inr tensor \<and>
     embeddings_loop tensor (length (xenova_chunks e f)) 0 [] = Inr embs \<and>
     upsert e (store st) (doc_args f (xenova_chunks e f) embs) = (None, col) \<and>
     ingest_loop_xenova e fs
       (st\<lparr>extractor := Some ex, calls := calls st @ [doc_args f (xenova_chunks e f) embs],
          store := col\<rparr>)
       (c + length (xenova_chunks e f)) = (Returns n, st')"
proof -
  from assms(2) obtain ex where ex: "active_extractor e st = Inr ex"
    by (cases "active_extractor e st") (simp_all add: ingest_loop_xenova_Cons_closed [OF assms(1)])
  with assms(2) obtain tensor where tn: "ex (xenova_chunks e f) = Inr tensor"
    by (cases "ex (xenova_chunks e f)")
       (simp_all add: ingest_loop_xenova_Cons_closed [OF assms(1)])
  with ex assms(2) obtain embs where
    em: "embeddings_loop tensor (length (xenova_chunks e f)) 0 [] = Inr embs"
    by (cases "embeddings_loop tensor (length (xenova_chunks e f)) 0 []")
       (simp_all add: ingest_loop_xenova_Cons_closed [OF assms(1)])
  obtain r col where up: "upsert e (store st) (doc_args f (xenova_chunks e f) embs) = (r, col)"
    by (cases "upsert e (store st) (doc_args f (xenova_chunks e f) embs)")
  with ex tn em assms(2) have "r = None"
    by (cases r) (simp_all add: ingest_loop_xenova_Cons_closed [OF assms(1)])
  with up ex tn em assms(2) show ?thesis
    by (simp add: ingest_loop_xenova_Cons_closed [OF assms(1)])
qed

lemma ingest_loop_xenova_store:
  assumes "upsert e = chroma_upsert"
  shows "ingest_loop_xenova e fs st c = (Returns n, st') \<Longrightarrow>
     dom (store st') = dom (store st) \<union> run_ids (xenova_chunks e) fs \<and>
     (\<forall>k. k \<notin> run_ids (xenova_chunks e) fs \<longrightarrow> store st' k = store st k) \<and>
     n = c + sum_list (map (\<lambda>f. length (xenova_chunks e f)) fs)"
proof (induction fs arbitrary: st c)
  case Nil
  then show ?case by (simp add: run_ids_def)
next
  case (Cons f fs)
  show ?case
  proof (cases "xenova_chunks e f = []")
    case True
    from ingest_loop_xenova_Cons_skip [OF True, of fs st c] Cons.prems obtain msg where
      "ingest_loop_xenova e fs (warn st msg) c = (Returns n, st')" by auto
    from Cons.IH [OF this] True show ?thesis
      by (simp add: run_ids_Cons doc_ids_def)
  next
    case False
    from ingest_loop_xenova_Cons_Returns [OF False Cons.prems] obtain ex embs col where
      up: "upsert e (store st) (doc_args f (xenova_chunks e f) embs) = (None, col)"
      and rest: "ingest_loop_xenova e fs
         (st\<lparr>extractor := Some ex, calls := calls st @ [doc_args f (xenova_chunks e f) embs],
            store := col\<rparr>)
         (c + length (xenova_chunks e f)) = (Returns n, st')"
      by blast
    define a where "a = doc_args f (xenova_chunks e f) embs"
    from up assms have al: "aligned a" and col: "col = store st ++ written a"
      by (auto simp: chroma_upsert_closed a_def split: if_splits)
    from dom_written [OF al] have dw: "dom (written a) = set (doc_ids f (length (xenova_chunks e f)))"
      by (simp add: a_def)
    from Cons.IH [OF rest]
    have d: "dom (store st') = dom col \<union> run_ids (xenova_chunks e) fs"
      and fr: "\<forall>k. k \<notin> run_ids (xenova_chunks e) fs \<longrightarrow> store st' k = col k"
      and n: "n = c + length (xenova_chunks e f) + sum_list (map (\<lambda>f. length (xenova_chunks e f)) fs)"
      by simp_all
    from d col dw have "dom (store st') = dom (store st) \<union> run_ids (xenova_chunks e) (f # fs)"
      by (auto simp: run_ids_Cons)
    moreover have "store st' k = store st k" if "k \<notin> run_ids (xenova_chunks e) (f # fs)" for k
    proof -
      from that have k1: "k \<notin> run_ids (xenova_chunks e) fs" and k2: "k \<notin> dom (written a)"
        by (simp_all add: run_ids_Cons dw)
      from fr k1 have "store st' k = col k" by simp
      also from k2 col have "\<dots> = store st k" by (simp add: map_add_dom_app_simps)
      finally show ?thesis .
    qed
    moreover from n have "n = c + sum_list (map (\<lambda>f. length (xenova_chunks e f)) (f # fs))" by simp
    ultimately show ?thesis by blast
  qed
qed

lemma ingest_loop_xenova_restart:
  assumes "upsert e = chroma_upsert"
  shows "ingest_loop_xenova e fs s c = (Returns n, s') \<Longrightarrow>
     (\<forall>k. k \<notin> run_ids (xenova_chunks e) fs \<longrightarrow> store s k = store t k) \<Longrightarrow>
     active_extractor e t = active_extractor e s \<Longrightarrow>
     \<exists>m t'. ingest_loop_xenova e fs t d = (Returns m, t') \<and> store t' = store s'"
proof (induction fs arbitrary: s t c d)
  case Nil
  then show ?case by (auto simp: run_ids_def)
next
  case (Cons f fs)
  show ?case
  proof (cases "xenova_chunks e f = []")
    case True
    from ingest_loop_xenova_Cons_skip [OF True, of fs s c] Cons.prems(1) obtain msg where
      l: "ingest_loop_xenova e fs (warn s msg) c = (Returns n, s')" by auto
    from ingest_loop_xenova_Cons_skip [OF True, of fs t d] obtain msg' where
      l': "ingest_loop_xenova e (f # fs) t d = ingest_loop_xenova e fs (warn t msg') d" by auto
    from Cons.prems(2) True
    have "\<forall>k. k \<notin> run_ids (xenova_chunks e) fs \<longrightarrow> store (warn s msg) k = store (warn t msg') k"
      by (simp add: run_ids_Cons doc_ids_def)
    from Cons.IH [OF l this, of d] Cons.prems(3) l' show ?thesis by simp
  next
    case False
    from ingest_loop_xenova_Cons_Returns [OF False Cons.prems(1)] obtain ex tensor embs col where
      ax: "active_extractor e s = Inr ex" and tn: "ex (xenova_chunks e f) = Inr tensor"
      and em: "embeddings_loop tensor (length (xenova_chunks e f)) 0 [] = Inr embs"
      and up: "upsert e (store s) (doc_args f (xenova_chunks e f) embs) = (None, col)"
      and rest: "ingest_loop_xenova e fs
         (s\<lparr>extractor := Some ex, calls := calls s @ [doc_args f (xenova_chunks e f) embs],
            store := col\<rparr>)
         (c + length (xenova_chunks e f)) = (Returns n, s')"
      by blast
    define a where "a = doc_args f (xenova_chunks e f) embs"
    define s1 where "s1 = s\<lparr>extractor := Some ex, calls := calls s @ [a], store := col\<rparr>"
    define t1 where "t1 = t\<lparr>extractor := Some ex, calls := calls t @ [a],
                            store := store t ++ written a\<rparr>"
    from up assms have al: "aligned a" and col: "col = store s ++ written a"
      by (auto simp: chroma_upsert_closed a_def split: if_splits)
    from dom_written [OF al] have dw: "dom (written a) = set (doc_ids f (length (xenova_chunks e f)))"
      by (simp add: a_def)
    from al assms have upt: "upsert e (store t) (doc_args f (xenova_chunks e f) embs)
        = (None, store t ++ written a)"
      by (simp add: chroma_upsert_closed a_def)
    have step_t: "ingest_loop_xenova e (f # fs) t d =
        ingest_loop_xenova e fs t1 (d + length (xenova_chunks e f))"
      using ax tn em upt Cons.prems(3)
      by (simp add: ingest_loop_xenova_Cons_closed [OF False] t1_def a_def)
    have agree: "\<forall>k. k \<notin> run_ids (xenova_chunks e) fs \<longrightarrow> store s1 k = store t1 k"
    proof (intro allI impI)
      fix k assume k: "k \<notin> run_ids (xenova_chunks e) fs"
      show "store s1 k = store t1 k"
      proof (cases "k \<in> dom (written a)")
        case True
        then show ?thesis by (simp add: s1_def t1_def col map_add_dom_app_simps)
      next
        case kf: False
        with k dw have "k \<notin> run_ids (xenova_chunks e) (f # fs)" by (simp add: run_ids_Cons)
        with Cons.prems(2) have "store s k = store t k" by blast
        with kf show ?thesis by (simp add: s1_def t1_def col map_add_dom_app_simps)
      qed
    qed
    have ext: "active_extractor e t1 = active_extractor e s1"
      by (simp add: s1_def t1_def active_extractor_def)
    from rest have rest': "ingest_loop_xenova e fs s1 (c + length (xenova_chunks e f)) = (Returns n, s')"
      by (simp add: s1_def a_def)
    from Cons.IH [OF rest' agree ext, of "d + length (xenova_chunks e f)"] step_t
    show ?thesis by simp
  qed
qed

lemma ingestDocumentsXenova_success:
  assumes "ingestDocumentsXenova e st = (Returns r, st')" and "success r"
  shows "\<exists>names s. chroma_getOrCreateCollection e COLLECTION_NAME_XENOVA = None \<and>
           readdir e (DOCUMENTS_DIR e) = Inr names \<and> pdf_files names \<noteq> [] \<and>
           ingest_loop_xenova e (pdf_files names) st 0 = (Returns (count r), s) \<and>
           st' = release s"
proof (cases "chroma_getOrCreateCollection e COLLECTION_NAME_XENOVA")
  case (Some x)
  with assms show ?thesis
    by (auto simp: ingestDocumentsXenova_def getOrCreateCollection_def failure_def)
next
  case None
  show ?thesis
  proof (cases "readdir e (DOCUMENTS_DIR e)")
    case (Inl x)
    with None assms show ?thesis
      by (auto simp: ingestDocumentsXenova_def getOrCreateCollection_def failure_def)
  next
    case (Inr names)
    obtain out s where loop: "ingest_loop_xenova e (pdf_files names) st 0 = (out, s)"
      by (cases "ingest_loop_xenova e (pdf_files names) st 0")
    with None Inr assms show ?thesis
      by (cases out)
         (auto simp: ingestDocumentsXenova_def getOrCreateCollection_def failure_def
            no_pdf_files_def Let_def split: if_splits)
  qed
qed

lemma ingestDocumentsXenova_run:
  assumes "chroma_getOrCreateCollection e COLLECTION_NAME_XENOVA = None"
    and "readdir e (DOCUMENTS_DIR e) = Inr names" and "pdf_files names \<noteq> []"
    and "ingest_loop_xenova e (pdf_files names) st 0 = (Returns n, st')"
  shows "ingestDocumentsXenova e st =
           (Returns \<lparr>success = True, count = n, error = None\<rparr>, release st')"
  using assms by (simp add: ingestDocumentsXenova_def getOrCreateCollection_def)

lemma local_reingestion:
  assumes u: "upsert e1 = chroma_upsert" "upsert e2 = chroma_upsert"
    and same: "readdir e2 (DOCUMENTS_DIR e2) = readdir e1 (DOCUMENTS_DIR e1)"
      "\<forall>f. extractTextFromPdfXenova e2 (doc_path e2 f) = extractTextFromPdfXenova e1 (doc_path e1 f)"
      "splitText e2 = splitText e1"
    and fresh: "extractor s0 = None"
    and run1: "ingestDocumentsXenova e1 s0 = (Returns r1, s1)" "success r1"
    and run2: "ingestDocumentsXenova e2 s1 = (Returns r2, s2)" "success r2"
  shows "dom (store s2) = dom (store s1) \<and> count r2 = count r1 \<and>
         store s2 = store (snd (ingestDocumentsXenova e2 s0))"
proof -
  from ingestDocumentsXenova_success [OF run1] obtain names x1 where
    n1: "readdir e1 (DOCUMENTS_DIR e1) = Inr names" "pdf_files names \<noteq> []"
    and l1: "ingest_loop_xenova e1 (pdf_files names) s0 0 = (Returns (count r1), x1)"
    and s1: "s1 = release x1"
    by blast
  from ingestDocumentsXenova_success [OF run2] same(1) n1(1) obtain x2 where
    c2: "chroma_getOrCreateCollection e2 COLLECTION_NAME_XENOVA = None"
    and n2: "readdir e2 (DOCUMENTS_DIR e2) = Inr names"
    and l2: "ingest_loop_xenova e2 (pdf_files names) s1 0 = (Returns (count r2), x2)"
    and s2: "s2 = release x2"
    by auto
  have ch: "xenova_chunks e2 = xenova_chunks e1"
    by (rule ext) (simp add: xenova_chunks_def same(2,3) split: sum.splits)
  from ingest_loop_xenova_store [OF u(1) l1] s1
  have d1: "dom (store s1) = dom (store s0) \<union> run_ids (xenova_chunks e1) (pdf_files names)"
    and f1: "\<forall>k. k \<notin> run_ids (xenova_chunks e1) (pdf_files names) \<longrightarrow> store s1 k = store s0 k"
    and c1: "count r1 = 0 + sum_list (map (\<lambda>f. length (xenova_chunks e1 f)) (pdf_files names))"
    by simp_all
  from ingest_loop_xenova_store [OF u(2) l2] ch s2
  have d2: "dom (store s2) = dom (store s1) \<union> run_ids (xenova_chunks e1) (pdf_files names)"
    and c2': "count r2 = 0 + sum_list (map (\<lambda>f. length (xenova_chunks e1 f)) (pdf_files names))"
    by simp_all
  from f1 ch have ag: "\<forall>k. k \<notin> run_ids (xenova_chunks e2) (pdf_files names) \<longrightarrow> store s1 k = store s0 k"
    by simp
  have ax: "active_extractor e2 s0 = active_extractor e2 s1"
    by (simp add: active_extractor_def fresh s1)
  from ingest_loop_xenova_restart [OF u(2) l2 ag ax, of 0] obtain m t' where
    l0: "ingest_loop_xenova e2 (pdf_files names) s0 0 = (Returns m, t')" and st: "store t' = store x2"
    by blast
  from ingestDocumentsXenova_run [OF c2 n2 n1(2) l0] st s2
  have "store s2 = store (snd (ingestDocumentsXenova e2 s0))" by simp
  with d1 d2 c1 c2' show ?thesis by auto
qed

text \<open>
  C2. Let a run succeed, and let a second run over the same directory, with the same text
  extracted from every file and the same splitter, succeed on the collection the first one
  left (the embedding provider may answer differently). With the store of the spec, the set
  of row ids after the second run is the set after the first, the count reported is the
  same, and the collection is the one the second run alone would have produced from the
  original collection: every row it wrote holds the content of the latest run.
\<close>

theorem reingestion_keeps_ids_and_takes_latest_rows:
  "(upsert e1 = chroma_upsert \<and> upsert e2 = chroma_upsert
      \<and> readdir e2 (DOCUMENTS_DIR e2) = readdir e1 (DOCUMENTS_DIR e1)
      \<and> (\<forall>f. extractTextFromPdf e2 (doc_path e2 f) = extractTextFromPdf e1 (doc_path e1 f))
      \<and> splitText e2 = splitText e1
      \<and> ingestDocuments e1 s0 = (Returns r1, s1) \<and> success r1
      \<and> ingestDocuments e2 s1 = (Returns r2, s2) \<and> success r2 \<longrightarrow>
    dom (store s2) = dom (store s1) \<and> count r2 = count r1
    \<and> store s2 = store (snd (ingestDocuments e2 s0)))
   \<and> (upsert e1 = chroma_upsert \<and> upsert e2 = chroma_upsert
      \<and> readdir e2 (DOCUMENTS_DIR e2) = readdir e1 (DOCUMENTS_DIR e1)
      \<and> (\<forall>f. extractTextFromPdfXenova e2 (doc_path e2 f)
               = extractTextFromPdfXenova e1 (doc_path e1 f))
      \<and> splitText e2 = splitText e1 \<and> extractor s0 = None
      \<and> ingestDocumentsXenova e1 s0 = (Returns r1', s1') \<and> success r1'
      \<and> ingestDocumentsXenova e2 s1' = (Returns r2', s2') \<and> success r2' \<longrightarrow>
    dom (store s2') = dom (store s1') \<and> count r2' = count r1'
    \<and> store s2' = store (snd (ingestDocumentsXenova e2 s0)))"
  using cloud_reingestion [of e1 e2 s0 r1 s1 r2 s2]
        local_reingestion [of e1 e2 s0 r1' s1' r2' s2']
  by blast

lemma demo_first_run:
  "fst (ingestDocuments demo_env init_state) = Returns \<lparr>success = True, count = 3, error = None\<rparr>"
  "fst (ingestDocumentsXenova demo_env init_state)
     = Returns \<lparr>success = True, count = 3, error = None\<rparr>"
  by (simp_all add: ingestDocuments_def ingestDocumentsXenova_def ingest_loop_step
        ingest_loop_xenova_step demo_unfold)

lemma demo_second_run:
  "fst (ingestDocuments recomputed_env st) = Returns \<lparr>success = True, count = 3, error = None\<rparr>"
  "extractor st = None \<Longrightarrow> fst (ingestDocumentsXenova recomputed_env st)
     = Returns \<lparr>success = True, count = 3, error = None\<rparr>"
  by (simp_all add: ingestDocuments_def ingestDocumentsXenova_def ingest_loop_step
        ingest_loop_xenova_step recomputed_env_def demo_unfold)

lemma recomputed_same_documents:
  "upsert demo_env = chroma_upsert" "upsert recomputed_env = chroma_upsert"
  "readdir recomputed_env (DOCUMENTS_DIR recomputed_env) = readdir demo_env (DOCUMENTS_DIR demo_env)"
  "\<forall>f. extractTextFromPdf recomputed_env (doc_path recomputed_env f)
        = extractTextFromPdf demo_env (doc_path demo_env f)"
  "\<forall>f. extractTextFromPdfXenova recomputed_env (doc_path recomputed_env f)
        = extractTextFromPdfXenova demo_env (doc_path demo_env f)"
  "splitText recomputed_env = splitText demo_env"
  by (simp_all add: recomputed_env_def demo_env_def doc_path_def extractTextFromPdf_def
        extractTextFromPdfXenova_def)

lemma recomputed_rows:
  "store (snd (ingestDocuments demo_env init_state)) ''a.pdf-0'' =
     Some \<lparr>row_embedding = [4], row_document = ''Hell'',
           row_metadata = \<lparr>source = ''a.pdf'', chunk_index = 0\<rparr>\<rparr>"
  "store (snd (ingestDocuments recomputed_env init_state)) ''a.pdf-0'' =
     Some \<lparr>row_embedding = [0], row_document = ''Hell'',
           row_metadata = \<lparr>source = ''a.pdf'', chunk_index = 0\<rparr>\<rparr>"
  "store (snd (ingestDocumentsXenova demo_env init_state)) ''a.pdf-0'' =
     Some \<lparr>row_embedding = [4], row_document = ''Hell'',
           row_metadata = \<lparr>source = ''a.pdf'', chunk_index = 0\<rparr>\<rparr>"
  "store (snd (ingestDocumentsXenova recomputed_env init_state)) ''a.pdf-0'' =
     Some \<lparr>row_embedding = [0], row_document = ''Hell'',
           row_metadata = \<lparr>source = ''a.pdf'', chunk_index = 0\<rparr>\<rparr>"
  by (simp_all add: ingestDocuments_def ingestDocumentsXenova_def ingest_loop_step
        ingest_loop_xenova_step recomputed_env_def demo_unfold)

theorem reingestion_keeps_ids_and_takes_latest_rows_witness:
  "fst (ingestDocuments demo_env init_state) = Returns \<lparr>success = True, count = 3, error = None\<rparr>
   \<and> fst (ingestDocuments recomputed_env cloud_after_first)
       = Returns \<lparr>success = True, count = 3, error = None\<rparr>
   \<and> dom (store cloud_after_second) = dom (store cloud_after_first)
   \<and> store cloud_after_second = store (snd (ingestDocuments recomputed_env init_state))
   \<and> store cloud_after_first ''a.pdf-0'' =
       Some \<lparr>row_embedding = [4], row_document = ''Hell'',
             row_metadata = \<lparr>source = ''a.pdf'', chunk_index = 0\<rparr>\<rparr>
   \<and> store cloud_after_second ''a.pdf-0'' =
       Some \<lparr>row_embedding = [0], row_document = ''Hell'',
             row_metadata = \<lparr>source = ''a.pdf'', chunk_index = 0\<rparr>\<rparr>
   \<and> fst (ingestDocumentsXenova demo_env init_state)
       = Returns \<lparr>success = True, count = 3, error = None\<rparr>
   \<and> fst (ingestDocumentsXenova recomputed_env local_after_first)
       = Returns \<lparr>success = True, count = 3, error = None\<rparr>
   \<and> dom (store local_after_second) = dom (store local_after_first)
   \<and> store local_after_second = store (snd (ingestDocumentsXenova recomputed_env init_state))
   \<and> store local_after_first ''a.pdf-0'' =
       Some \<lparr>row_embedding = [4], row_document = ''Hell'',
             row_metadata = \<lparr>source = ''a.pdf'', chunk_index = 0\<rparr>\<rparr>
   \<and> store local_after_second ''a.pdf-0'' =
       Some \<lparr>row_embedding = [0], row_document = ''Hell'',
             row_metadata = \<lparr>source = ''a.pdf'', chunk_index = 0\<rparr>\<rparr>"
proof -
  let ?r = "\<lparr>success = True, count = 3, error = None\<rparr>"
  have g1: "ingestDocuments demo_env init_state = (Returns ?r, cloud_after_first)"
    unfolding cloud_after_first_def using demo_first_run(1) by (metis prod.collapse)
  have g2: "ingestDocuments recomputed_env cloud_after_first = (Returns ?r, cloud_after_second)"
    unfolding cloud_after_second_def using demo_second_run(1) by (metis prod.collapse)
  have x1: "ingestDocumentsXenova demo_env init_state = (Returns ?r, local_after_first)"
    unfolding local_after_first_def using demo_first_run(2) by (metis prod.collapse)
  have fr: "extractor init_state = None" by (simp add: init_state_def)
  have su: "success ?r" by simp
  from ingestDocumentsXenova_success [OF x1 su] obtain s where "local_after_first = release s"
    by blast
  then have fr1: "extractor local_after_first = None" by (metis release_simps(4))
  have x2: "ingestDocumentsXenova recomputed_env local_after_first = (Returns ?r, local_after_second)"
    unfolding local_after_second_def using demo_second_run(2) [OF fr1] by (metis prod.collapse)
  note T = reingestion_keeps_ids_and_takes_latest_rows
         [of demo_env recomputed_env init_state ?r cloud_after_first ?r cloud_after_second
             ?r local_after_first ?r local_after_second]
  have c: "dom (store cloud_after_second) = dom (store cloud_after_first)
      \<and> count ?r = count ?r
      \<and> store cloud_after_second = store (snd (ingestDocuments recomputed_env init_state))"
    by (rule T [THEN conjunct1, THEN mp]) (intro conjI recomputed_same_documents g1 g2 su)
  have l: "dom (store local_after_second) = dom (store local_after_first)
      \<and> count ?r = count ?r
      \<and> store local_after_second = store (snd (ingestDocumentsXenova recomputed_env init_state))"
    by (rule T [THEN conjunct2, THEN mp]) (intro conjI recomputed_same_documents x1 x2 su fr)
  have rows: "store cloud_after_first ''a.pdf-0'' =
       Some \<lparr>row_embedding = [4], row_document = ''Hell'',
             row_metadata = \<lparr>source = ''a.pdf'', chunk_index = 0\<rparr>\<rparr>"
    "store local_after_first ''a.pdf-0'' =
       Some \<lparr>row_embedding = [4], row_document = ''Hell'',
             row_metadata = \<lparr>source = ''a.pdf'', chunk_index = 0\<rparr>\<rparr>"
    unfolding cloud_after_first_def local_after_first_def by (rule recomputed_rows)+
  have rows2: "store cloud_after_second ''a.pdf-0'' =
       Some \<lparr>row_embedding = [0], row_document = ''Hell'',
             row_metadata = \<lparr>source = ''a.pdf'', chunk_index = 0\<rparr>\<rparr>"
    "store local_after_second ''a.pdf-0'' =
       Some \<lparr>row_embedding = [0], row_document = ''Hell'',
             row_metadata = \<lparr>source = ''a.pdf'', chunk_index = 0\<rparr>\<rparr>"
    using c l recomputed_rows(2,4) by simp_all
  from g1 have f1: "fst (ingestDocuments demo_env init_state) = Returns ?r" by simp
  from g2 have f2: "fst (ingestDocuments recomputed_env cloud_after_first) = Returns ?r" by simp
  from x1 have f3: "fst (ingestDocumentsXenova demo_env init_state) = Returns ?r" by simp
  from x2 have f4: "fst (ingestDocumentsXenova recomputed_env local_after_first) = Returns ?r" by simp
  from c l rows rows2 f1 f2 f3 f4 show ?thesis by (intro conjI) blast+
qed

section \<open>Persisted rows\<close>

text \<open>
  With the store of the spec, a run of either pipeline keeps every row of the collection
  under the id made of the row's own \<open>source\<close> and \<open>chunk_index\<close>.
\<close>

lemma written_row:
  assumes "aligned (doc_args f chunks embs)" and "written (doc_args f chunks embs) k = Some r"
  shows "\<exists>i<length chunks. k = f @ ''-'' @ string_of_nat i \<and>
           r = \<lparr>row_embedding = embs ! i, row_document = chunks ! i,
                 row_metadata = \<lparr>source = f, chunk_index = i\<rparr>\<rparr>"
proof -
  let ?a = "doc_args f chunks embs"
  from assms(1) have len: "length embs = length chunks"
    by (simp add: aligned_def doc_ids_nth(1))
  from assms(2) have "(k, r) \<in> set (zip (ids ?a) (rows_of ?a))"
    by (auto simp: written_def dest: map_of_SomeD)
  then obtain i where i: "i < length (ids ?a)" "i < length (rows_of ?a)"
    "ids ?a ! i = k" "rows_of ?a ! i = r"
    by (auto simp: in_set_zip)
  from i(1) have il: "i < length chunks" by (simp add: doc_ids_nth(1))
  with i(3) have "k = f @ ''-'' @ string_of_nat i" by (simp add: doc_ids_nth(2))
  moreover from il len i(4) have "r = \<lparr>row_embedding = embs ! i, row_document = chunks ! i,
                 row_metadata = \<lparr>source = f, chunk_index = i\<rparr>\<rparr>"
    by (simp add: rows_of_def doc_metadatas_nth)
  ultimately show ?thesis using il by blast
qed

lemma row_ids_ok_upsert:
  assumes "row_ids_ok col" and "chroma_upsert col (doc_args f chunks embs) = (r, col')"
  shows "row_ids_ok col'"
proof (cases "aligned (doc_args f chunks embs)")
  case True
  with assms(2) have col': "col' = col ++ written (doc_args f chunks embs)"
    by (simp add: chroma_upsert_closed)
  show ?thesis
    unfolding row_ids_ok_def col'
  proof (intro allI impI)
    fix k x assume "(col ++ written (doc_args f chunks embs)) k = Some x"
    then consider "written (doc_args f chunks embs) k = Some x" | "col k = Some x"
      by (auto simp: map_add_Some_iff)
    then show "k = source (row_metadata x) @ ''-'' @ string_of_nat (chunk_index (row_metadata x))"
    proof cases
      case 1
      from written_row [OF True 1] show ?thesis by auto
    next
      case 2
      with assms(1) show ?thesis by (simp add: row_ids_ok_def)
    qed
  qed
next
  case False
  with assms show ?thesis by (simp add: chroma_upsert_closed)
qed

lemma ingest_loop_row_ids:
  assumes "upsert e = chroma_upsert"
  shows "ingest_loop e fs st c = (out, st') \<Longrightarrow> row_ids_ok (store st) \<Longrightarrow> row_ids_ok (store st')"
proof (induction fs arbitrary: st c)
  case Nil
  then show ?case by simp
next
  case (Cons f fs)
  show ?case
  proof (cases "extractTextFromPdf e (doc_path e f)")
    case (Returns t)
    show ?thesis
    proof (cases "generateEmbeddings e (chunkText e t)")
      case (Inl x)
      with Returns Cons.prems show ?thesis by (simp add: ingest_loop_step)
    next
      case (Inr embs)
      obtain r col where up: "chroma_upsert (store st) (doc_args f (chunkText e t) embs) = (r, col)"
        by (cases "chroma_upsert (store st) (doc_args f (chunkText e t) embs)")
      from row_ids_ok_upsert [OF Cons.prems(2) up] have ok: "row_ids_ok col" .
      show ?thesis
      proof (cases r)
        case None
        with Returns Inr up Cons.prems(1) assms
        have "ingest_loop e fs
                (st\<lparr>calls := calls st @ [doc_args f (chunkText e t) embs], store := col\<rparr>)
                (c + length (chunkText e t)) = (out, st')"
          by (simp add: ingest_loop_step doc_args_def Let_def)
        from Cons.IH [OF this] ok show ?thesis by simp
      next
        case (Some x)
        with Returns Inr up Cons.prems(1) assms ok show ?thesis
          by (auto simp: ingest_loop_step doc_args_def Let_def)
      qed
    qed
  next
    case (Throws x)
    with Cons.prems show ?thesis by (simp add: ingest_loop_step)
  next
    case Never
    with Cons.prems show ?thesis by (simp add: ingest_loop_step)
  qed
qed

lemma ingest_loop_xenova_row_ids:
  assumes "upsert e = chroma_upsert"
  shows "ingest_loop_xenova e fs st c = (out, st') \<Longrightarrow> row_ids_ok (store st) \<Longrightarrow>
           row_ids_ok (store st')"
proof (induction fs arbitrary: st c)
  case Nil
  then show ?case by simp
next
  case (Cons f fs)
  show ?case
  proof (cases "xenova_chunks e f = []")
    case True
    from ingest_loop_xenova_Cons_skip [OF True, of fs st c] Cons.prems(1) obtain msg where
      "ingest_loop_xenova e fs (warn st msg) c = (out, st')" by auto
    from Cons.IH [OF this] Cons.prems(2) show ?thesis by simp
  next
    case False
    note closed = ingest_loop_xenova_Cons_closed [OF False, of fs st c]
    show ?thesis
    proof (cases "active_extractor e st")
      case (Inl x)
      with closed Cons.prems show ?thesis by simp
    next
      case ax: (Inr ex)
      show ?thesis
      proof (cases "ex (xenova_chunks e f)")
        case (Inl x)
        with ax closed Cons.prems show ?thesis by auto
      next
        case tn: (Inr tensor)
        show ?thesis
        proof (cases "embeddings_loop tensor (length (xenova_chunks e f)) 0 []")
          case (Inl x)
          with tn ax closed Cons.prems show ?thesis by auto
        next
          case em: (Inr embs)
          obtain r col where
            up: "chroma_upsert (store st) (doc_args f (xenova_chunks e f) embs) = (r, col)"
            by (cases "chroma_upsert (store st) (doc_args f (xenova_chunks e f) embs)")
          from row_ids_ok_upsert [OF Cons.prems(2) up] have ok: "row_ids_ok col" .
          show ?thesis
          proof (cases r)
            case None
            with em tn ax closed up Cons.prems(1) assms
            have "ingest_loop_xenova e fs
                    (st\<lparr>extractor := Some ex,
                       calls := calls st @ [doc_args f (xenova_chunks e f) embs], store := col\<rparr>)
                    (c + length (xenova_chunks e f)) = (out, st')"
              by simp
            from Cons.IH [OF this] ok show ?thesis by simp
          next
            case (Some x)
            with em tn ax closed up Cons.prems(1) assms ok show ?thesis by auto
          qed
        qed
      qed
    qed
  qed
qed

lemma persisted_rows_carry_their_id:
  assumes "upsert e = chroma_upsert" and "row_ids_ok (store st)"
  shows "row_ids_ok (store (snd (ingestDocuments e st)))"
    and "row_ids_ok (store (snd (ingestDocumentsXenova e st)))"
proof -
  show "row_ids_ok (store (snd (ingestDocuments e st)))"
  proof (cases "getOrCreateCollection e COLLECTION_NAME")
    case (Inl x)
    with assms(2) show ?thesis by (simp add: ingestDocuments_def)
  next
    case conn: (Inr u)
    show ?thesis
    proof (cases "readdir e (DOCUMENTS_DIR e)")
      case (Inl x)
      with conn assms(2) show ?thesis by (simp add: ingestDocuments_def)
    next
      case (Inr names)
      obtain out s where loop: "ingest_loop e (pdf_files names) st 0 = (out, s)"
        by (cases "ingest_loop e (pdf_files names) st 0")
      from ingest_loop_row_ids [OF assms(1) loop assms(2)] have "row_ids_ok (store s)" .
      with conn Inr loop assms(2) show ?thesis
        by (cases out) (simp_all add: ingestDocuments_def Let_def)
    qed
  qed
  show "row_ids_ok (store (snd (ingestDocumentsXenova e st)))"
  proof (cases "getOrCreateCollection e COLLECTION_NAME_XENOVA")
    case (Inl x)
    with assms(2) show ?thesis by (simp add: ingestDocumentsXenova_def)
  next
    case conn: (Inr u)
    show ?thesis
    proof (cases "readdir e (DOCUMENTS_DIR e)")
      case (Inl x)
      with conn assms(2) show ?thesis by (simp add: ingestDocumentsXenova_def)
    next
      case (Inr names)
      obtain out s where loop: "ingest_loop_xenova e (pdf_files names) st 0 = (out, s)"
        by (cases "ingest_loop_xenova e (pdf_files names) st 0")
      from ingest_loop_xenova_row_ids [OF assms(1) loop assms(2)] have "row_ids_ok (store s)" .
      with conn Inr loop assms(2) show ?thesis
        by (cases out) (simp_all add: ingestDocumentsXenova_def Let_def)
    qed
  qed
qed

section \<open>Chunk ids and metadata\<close>

lemma gemini_sent_document:
  assumes "gemini_sent e f a"
  shows "\<exists>t. extractTextFromPdf e (path_join e (DOCUMENTS_DIR e) f) = Returns t \<and>
           documents a = chunkText e t"
  using assms by (auto simp: gemini_sent_def doc_path_def split: outcome.splits)

lemma xenova_sent_document:
  assumes "xenova_sent e x f a"
  shows "\<exists>t. extractTextFromPdfXenova e (path_join e (DOCUMENTS_DIR e) f) = Inr t \<and>
           documents a = splitText e splitter t"
  using assms by (auto simp: xenova_sent_def doc_path_def split: sum.splits)

lemma sent_positions:
  assumes "ids a = doc_ids f (length (documents a))"
    and "metadatas a = doc_metadatas f (length (documents a))"
  shows "length (ids a) = length (documents a) \<and> length (metadatas a) = length (documents a) \<and>
     (\<forall>i<length (documents a).
        ids a ! i = f @ ''-'' @ string_of_nat i \<and>
        metadatas a ! i = \<lparr>source = f, chunk_index = i\<rparr>)"
  using assms by (metis doc_ids_nth doc_metadatas_nth)

lemma ingest_loop_calls_complete:
  "ingest_loop e fs st c = (Returns n, st') \<Longrightarrow> f \<in> set fs \<Longrightarrow>
     \<exists>a\<in>set (new_calls st st'). gemini_sent e f a"
proof (induction fs arbitrary: st c)
  case Nil
  then show ?case by simp
next
  case (Cons g fs)
  from ingest_loop_Cons_Returns [OF Cons.prems(1)] obtain embs col t where
    ge: "generateEmbeddings e (gemini_chunks e g) = Inr embs"
    and ex: "extractTextFromPdf e (doc_path e g) = Returns t"
    and rest: "ingest_loop e fs
       (st\<lparr>calls := calls st @ [doc_args g (gemini_chunks e g) embs], store := col\<rparr>)
       (c + length (gemini_chunks e g)) = (Returns n, st')"
    by blast
  define a where "a = doc_args g (gemini_chunks e g) embs"
  define st1 where "st1 = st\<lparr>calls := calls st @ [a], store := col\<rparr>"
  from rest have rest': "ingest_loop e fs st1 (c + length (gemini_chunks e g)) = (Returns n, st')"
    by (simp add: st1_def a_def)
  from ingest_loop_calls [OF rest'] obtain cs where cs: "calls st' = calls st1 @ cs" by blast
  then have n0: "new_calls st st' = a # cs" and n1: "new_calls st1 st' = cs"
    by (simp_all add: new_calls_def st1_def)
  show ?case
  proof (cases "f = g")
    case True
    from ex have "gemini_chunks e g = chunkText e t" by (simp add: gemini_chunks_def)
    with ex ge have "gemini_sent e g a" by (simp add: gemini_sent_def a_def)
    with True n0 show ?thesis by auto
  next
    case False
    with Cons.prems(2) have "f \<in> set fs" by simp
    from Cons.IH [OF rest' this] n0 n1 show ?thesis by auto
  qed
qed

lemma ingest_loop_xenova_calls_complete:
  "ingest_loop_xenova e fs st c = (Returns n, st') \<Longrightarrow> f \<in> set fs \<Longrightarrow>
   xenova_chunks e f \<noteq> [] \<Longrightarrow>
     \<exists>a\<in>set (new_calls st st'). xenova_sent e (active_extractor e st) f a"
proof (induction fs arbitrary: st c)
  case Nil
  then show ?case by simp
next
  case (Cons g fs)
  show ?case
  proof (cases "xenova_chunks e g = []")
    case True
    with Cons.prems(2,3) have fin: "f \<in> set fs" by auto
    from ingest_loop_xenova_Cons_skip [OF True, of fs st c] Cons.prems(1) obtain msg where
      l: "ingest_loop_xenova e fs (warn st msg) c = (Returns n, st')" by auto
    from Cons.IH [OF l fin Cons.prems(3)] show ?thesis by (simp add: new_calls_def)
  next
    case False
    from ingest_loop_xenova_Cons_Returns [OF False Cons.prems(1)] obtain ex tensor embs col where
      ax: "active_extractor e st = Inr ex" and tn: "ex (xenova_chunks e g) = Inr tensor"
      and em: "embeddings_loop tensor (length (xenova_chunks e g)) 0 [] = Inr embs"
      and rest: "ingest_loop_xenova e fs
         (st\<lparr>extractor := Some ex, calls := calls st @ [doc_args g (xenova_chunks e g) embs],
            store := col\<rparr>)
         (c + length (xenova_chunks e g)) = (Returns n, st')"
      by blast
    define a where "a = doc_args g (xenova_chunks e g) embs"
    define st1 where "st1 = st\<lparr>extractor := Some ex, calls := calls st @ [a], store := col\<rparr>"
    from rest have rest': "ingest_loop_xenova e fs st1 (c + length (xenova_chunks e g)) = (Returns n, st')"
      by (simp add: st1_def a_def)
    have ax1: "active_extractor e st1 = active_extractor e st"
      by (simp add: st1_def ax)
    from ingest_loop_xenova_calls [OF rest'] obtain cs where cs: "calls st' = calls st1 @ cs"
      by blast
    then have n0: "new_calls st st' = a # cs" and n1: "new_calls st1 st' = cs"
      by (simp_all add: new_calls_def st1_def)
    show ?thesis
    proof (cases "f = g")
      case True
      from False obtain t where t: "extractTextFromPdfXenova e (doc_path e g) = Inr t" "t \<noteq> []"
        "xenova_chunks e g = splitText e splitter t"
        by (auto simp: xenova_chunks_def split: sum.splits if_splits)
      with False ax tn em have "xenova_sent e (active_extractor e st) g a"
        by (simp add: xenova_sent_def a_def)
      with True n0 show ?thesis by auto
    next
      case fg: False
      with Cons.prems(2) have "f \<in> set fs" by simp
      from Cons.IH [OF rest' this Cons.prems(3)] n0 n1 ax1 show ?thesis by auto
    qed
  qed
qed

text \<open>
  C7. Every upsert call of either pipeline is made for one file name of the directory
  listing and carries, as \<open>documents\<close>, the chunks of the text extracted from that file. It
  passes one id and one metadata record per chunk: the id of the chunk at position \<open>i\<close>
  (counted from 0) is the file name, a hyphen and the decimal \<open>i\<close>, and its metadata record
  is made of exactly \<open>source\<close>, the file name, and \<open>chunk_index\<close>, the number \<open>i\<close>. And
  when a run succeeds, every listed PDF file that is not skipped has such a call.
\<close>

theorem chunk_row_id_and_metadata:
  "(a \<in> set (new_calls st (snd (ingestDocuments e st))) \<longrightarrow>
      (\<exists>names fileName t.
         readdir e (DOCUMENTS_DIR e) = Inr names \<and> fileName \<in> set names \<and>
         extractTextFromPdf e (path_join e (DOCUMENTS_DIR e) fileName) = Returns t \<and>
         documents a = chunkText e t \<and>
         length (ids a) = length (documents a) \<and> length (metadatas a) = length (documents a) \<and>
         (\<forall>i<length (documents a).
            ids a ! i = fileName @ ''-'' @ string_of_nat i \<and>
            metadatas a ! i = \<lparr>source = fileName, chunk_index = i\<rparr>)))
   \<and> (a' \<in> set (new_calls st (snd (ingestDocumentsXenova e st))) \<longrightarrow>
      (\<exists>names fileName t.
         readdir e (DOCUMENTS_DIR e) = Inr names \<and> fileName \<in> set names \<and>
         extractTextFromPdfXenova e (path_join e (DOCUMENTS_DIR e) fileName) = Inr t \<and>
         documents a' = splitText e splitter t \<and>
         length (ids a') = length (documents a') \<and> length (metadatas a') = length (documents a') \<and>
         (\<forall>i<length (documents a').
            ids a' ! i = fileName @ ''-'' @ string_of_nat i \<and>
            metadatas a' ! i = \<lparr>source = fileName, chunk_index = i\<rparr>)))
   \<and> (readdir e (DOCUMENTS_DIR e) = Inr listing \<and> f \<in> set listing \<and> endsWith f ''.pdf''
        \<and> fst (ingestDocuments e st) = Returns r \<and> success r \<longrightarrow>
      (\<exists>b\<in>set (new_calls st (snd (ingestDocuments e st))). \<exists>t.
         extractTextFromPdf e (path_join e (DOCUMENTS_DIR e) f) = Returns t \<and>
         documents b = chunkText e t \<and>
         length (ids b) = length (documents b) \<and> length (metadatas b) = length (documents b) \<and>
         (\<forall>i<length (documents b).
            ids b ! i = f @ ''-'' @ string_of_nat i \<and>
            metadatas b ! i = \<lparr>source = f, chunk_index = i\<rparr>)))
   \<and> (readdir e (DOCUMENTS_DIR e) = Inr listing \<and> f \<in> set listing \<and> endsWith f ''.pdf''
        \<and> extractTextFromPdfXenova e (path_join e (DOCUMENTS_DIR e) f) = Inr txt
        \<and> txt \<noteq> [] \<and> splitText e splitter txt \<noteq> []
        \<and> fst (ingestDocumentsXenova e st) = Returns r' \<and> success r' \<longrightarrow>
      (\<exists>b\<in>set (new_calls st (snd (ingestDocumentsXenova e st))).
         documents b = splitText e splitter txt \<and>
         length (ids b) = length (documents b) \<and> length (metadatas b) = length (documents b) \<and>
         (\<forall>i<length (documents b).
            ids b ! i = f @ ''-'' @ string_of_nat i \<and>
            metadatas b ! i = \<lparr>source = f, chunk_index = i\<rparr>)))"
proof (intro conjI impI; (elim conjE)?)
  assume "a \<in> set (new_calls st (snd (ingestDocuments e st)))"
  from ingestDocuments_calls [OF this] obtain names g where
    n: "readdir e (DOCUMENTS_DIR e) = Inr names" "g \<in> set (pdf_files names)"
    and s: "gemini_sent e g a" by blast
  from n(2) have g: "g \<in> set names" by (simp add: pdf_files_def)
  from s have p: "ids a = doc_ids g (length (documents a))"
      "metadatas a = doc_metadatas g (length (documents a))"
    by (simp_all add: gemini_sent_def)
  from gemini_sent_document [OF s] obtain t where
    "extractTextFromPdf e (path_join e (DOCUMENTS_DIR e) g) = Returns t" "documents a = chunkText e t"
    by blast
  with n(1) g sent_positions [OF p]
  show "\<exists>names fileName t.
         readdir e (DOCUMENTS_DIR e) = Inr names \<and> fileName \<in> set names \<and>
         extractTextFromPdf e (path_join e (DOCUMENTS_DIR e) fileName) = Returns t \<and>
         documents a = chunkText e t \<and>
         length (ids a) = length (documents a) \<and> length (metadatas a) = length (documents a) \<and>
         (\<forall>i<length (documents a).
            ids a ! i = fileName @ ''-'' @ string_of_nat i \<and>
            metadatas a ! i = \<lparr>source = fileName, chunk_index = i\<rparr>)"
    by blast
next
  assume "a' \<in> set (new_calls st (snd (ingestDocumentsXenova e st)))"
  from ingestDocumentsXenova_calls [OF this] obtain names g where
    n: "readdir e (DOCUMENTS_DIR e) = Inr names" "g \<in> set (pdf_files names)"
    and s: "xenova_sent e (active_extractor e st) g a'" by blast
  from n(2) have g: "g \<in> set names" by (simp add: pdf_files_def)
  from s have p: "ids a' = doc_ids g (length (documents a'))"
      "metadatas a' = doc_metadatas g (length (documents a'))"
    by (simp_all add: xenova_sent_def)
  from xenova_sent_document [OF s] obtain t where
    "extractTextFromPdfXenova e (path_join e (DOCUMENTS_DIR e) g) = Inr t"
    "documents a' = splitText e splitter t"
    by blast
  with n(1) g sent_positions [OF p]
  show "\<exists>names fileName t.
         readdir e (DOCUMENTS_DIR e) = Inr names \<and> fileName \<in> set names \<and>
         extractTextFromPdfXenova e (path_join e (DOCUMENTS_DIR e) fileName) = Inr t \<and>
         documents a' = splitText e splitter t \<and>
         length (ids a') = length (documents a') \<and> length (metadatas a') = length (documents a') \<and>
         (\<forall>i<length (documents a').
            ids a' ! i = fileName @ ''-'' @ string_of_nat i \<and>
            metadatas a' ! i = \<lparr>source = fileName, chunk_index = i\<rparr>)"
    by blast
next
  assume h: "readdir e (DOCUMENTS_DIR e) = Inr listing" "f \<in> set listing" "endsWith f ''.pdf''"
    "fst (ingestDocuments e st) = Returns r" "success r"
  from h(4) have run: "ingestDocuments e st = (Returns r, snd (ingestDocuments e st))"
    by (metis prod.collapse)
  from ingestDocuments_success [OF run h(5)] h(1)
  have loop: "ingest_loop e (pdf_files listing) st 0 = (Returns (count r), snd (ingestDocuments e st))"
    by auto
  from h(2,3) have "f \<in> set (pdf_files listing)" by (simp add: pdf_files_def)
  from ingest_loop_calls_complete [OF loop this] obtain b where
    b: "b \<in> set (new_calls st (snd (ingestDocuments e st)))" and s: "gemini_sent e f b"
    by blast
  from s have p: "ids b = doc_ids f (length (documents b))"
      "metadatas b = doc_metadatas f (length (documents b))"
    by (simp_all add: gemini_sent_def)
  from gemini_sent_document [OF s] obtain t where
    "extractTextFromPdf e (path_join e (DOCUMENTS_DIR e) f) = Returns t" "documents b = chunkText e t"
    by blast
  with b sent_positions [OF p]
  show "\<exists>b\<in>set (new_calls st (snd (ingestDocuments e st))). \<exists>t.
         extractTextFromPdf e (path_join e (DOCUMENTS_DIR e) f) = Returns t \<and>
         documents b = chunkText e t \<and>
         length (ids b) = length (documents b) \<and> length (metadatas b) = length (documents b) \<and>
         (\<forall>i<length (documents b).
            ids b ! i = f @ ''-'' @ string_of_nat i \<and>
            metadatas b ! i = \<lparr>source = f, chunk_index = i\<rparr>)"
    by blast
next
  assume h: "readdir e (DOCUMENTS_DIR e) = Inr listing" "f \<in> set listing" "endsWith f ''.pdf''"
    "extractTextFromPdfXenova e (path_join e (DOCUMENTS_DIR e) f) = Inr txt"
    "txt \<noteq> []" "splitText e splitter txt \<noteq> []"
    "fst (ingestDocumentsXenova e st) = Returns r'" "success r'"
  from h(7) have run: "ingestDocumentsXenova e st = (Returns r', snd (ingestDocumentsXenova e st))"
    by (metis prod.collapse)
  from ingestDocumentsXenova_success [OF run h(8)] h(1) obtain s1 where
    loop: "ingest_loop_xenova e (pdf_files listing) st 0 = (Returns (count r'), s1)"
    and fin: "snd (ingestDocumentsXenova e st) = release s1"
    by auto
  from h(2,3) have fl: "f \<in> set (pdf_files listing)" by (simp add: pdf_files_def)
  from h(4,5,6) have ch: "xenova_chunks e f \<noteq> []"
    by (simp add: xenova_chunks_def doc_path_def)
  from ingest_loop_xenova_calls_complete [OF loop fl ch] fin obtain b where
    b: "b \<in> set (new_calls st (snd (ingestDocumentsXenova e st)))"
    and s: "xenova_sent e (active_extractor e st) f b"
    by auto
  from s have p: "ids b = doc_ids f (length (documents b))"
      "metadatas b = doc_metadatas f (length (documents b))"
    by (simp_all add: xenova_sent_def)
  from xenova_sent_document [OF s] h(4) have "documents b = splitText e splitter txt" by auto
  with b sent_positions [OF p]
  show "\<exists>b\<in>set (new_calls st (snd (ingestDocumentsXenova e st))).
         documents b = splitText e splitter txt \<and>
         length (ids b) = length (documents b) \<and> length (metadatas b) = length (documents b) \<and>
         (\<forall>i<length (documents b).
            ids b ! i = f @ ''-'' @ string_of_nat i \<and>
            metadatas b ! i = \<lparr>source = f, chunk_index = i\<rparr>)"
    by blast
qed

theorem chunk_row_id_and_metadata_witness:
  "demo_call_a \<in> set (new_calls init_state (snd (ingestDocuments demo_env init_state)))
   \<and> (\<exists>names fileName t.
         readdir demo_env (DOCUMENTS_DIR demo_env) = Inr names \<and> fileName \<in> set names \<and>
         extractTextFromPdf demo_env (path_join demo_env (DOCUMENTS_DIR demo_env) fileName) = Returns t \<and>
         documents demo_call_a = chunkText demo_env t \<and>
         length (ids demo_call_a) = length (documents demo_call_a) \<and>
         length (metadatas demo_call_a) = length (documents demo_call_a) \<and>
         (\<forall>i<length (documents demo_call_a).
            ids demo_call_a ! i = fileName @ ''-'' @ string_of_nat i \<and>
            metadatas demo_call_a ! i = \<lparr>source = fileName, chunk_index = i\<rparr>))
   \<and> demo_local_call_b \<in> set (new_calls init_state (snd (ingestDocumentsXenova demo_env init_state)))
   \<and> (\<exists>names fileName t.
         readdir demo_env (DOCUMENTS_DIR demo_env) = Inr names \<and> fileName \<in> set names \<and>
         extractTextFromPdfXenova demo_env (path_join demo_env (DOCUMENTS_DIR demo_env) fileName) = Inr t \<and>
         documents demo_local_call_b = splitText demo_env splitter t \<and>
         length (ids demo_local_call_b) = length (documents demo_local_call_b) \<and>
         length (metadatas demo_local_call_b) = length (documents demo_local_call_b) \<and>
         (\<forall>i<length (documents demo_local_call_b).
            ids demo_local_call_b ! i = fileName @ ''-'' @ string_of_nat i \<and>
            metadatas demo_local_call_b ! i = \<lparr>source = fileName, chunk_index = i\<rparr>))
   \<and> fst (ingestDocuments demo_env init_state) = Returns \<lparr>success = True, count = 3, error = None\<rparr>
   \<and> (\<exists>b\<in>set (new_calls init_state (snd (ingestDocuments demo_env init_state))). \<exists>t.
         extractTextFromPdf demo_env (path_join demo_env (DOCUMENTS_DIR demo_env) ''b.pdf'') = Returns t \<and>
         documents b = chunkText demo_env t \<and>
         length (ids b) = length (documents b) \<and> length (metadatas b) = length (documents b) \<and>
         (\<forall>i<length (documents b).
            ids b ! i = ''b.pdf'' @ ''-'' @ string_of_nat i \<and>
            metadatas b ! i = \<lparr>source = ''b.pdf'', chunk_index = i\<rparr>))
   \<and> fst (ingestDocumentsXenova demo_env init_state)
       = Returns \<lparr>success = True, count = 3, error = None\<rparr>
   \<and> (\<exists>b\<in>set (new_calls init_state (snd (ingestDocumentsXenova demo_env init_state))).
         documents b = splitText demo_env splitter ''Hello world'' \<and>
         length (ids b) = length (documents b) \<and> length (metadatas b) = length (documents b) \<and>
         (\<forall>i<length (documents b).
            ids b ! i = ''a.pdf'' @ ''-'' @ string_of_nat i \<and>
            metadatas b ! i = \<lparr>source = ''a.pdf'', chunk_index = i\<rparr>))"
proof -
  let ?r = "\<lparr>success = True, count = 3, error = None\<rparr>"
  let ?names = "[''a.pdf'', ''notes.txt'', ''b.pdf'']"
  note T1 = chunk_row_id_and_metadata
              [of demo_call_a init_state demo_env demo_local_call_b ?names "''b.pdf''" ?r
                  "''Hello world''" ?r]
  note T2 = chunk_row_id_and_metadata
              [of demo_call_a init_state demo_env demo_local_call_b ?names "''a.pdf''" ?r
                  "''Hello world''" ?r]
  have h1: "demo_call_a \<in> set (new_calls init_state (snd (ingestDocuments demo_env init_state)))"
    by (simp add: new_calls_def demo_cloud_calls) (simp add: init_state_def)
  have h2: "demo_local_call_b \<in> set (new_calls init_state (snd (ingestDocumentsXenova demo_env init_state)))"
    by (simp add: new_calls_def demo_local_calls) (simp add: init_state_def)
  have r: "readdir demo_env (DOCUMENTS_DIR demo_env) = Inr ?names"
    by (simp add: demo_env_def)
  have e1: "endsWith ''b.pdf'' ''.pdf''" "endsWith ''a.pdf'' ''.pdf''"
    by (simp_all add: endsWith_def)
  have x: "extractTextFromPdfXenova demo_env (path_join demo_env (DOCUMENTS_DIR demo_env) ''a.pdf'')
             = Inr ''Hello world''"
    "''Hello world'' \<noteq> []" "splitText demo_env splitter ''Hello world'' \<noteq> []"
    by (simp_all add: demo_unfold)
  have su: "success ?r" by simp
  have c1: "\<exists>names fileName t.
         readdir demo_env (DOCUMENTS_DIR demo_env) = Inr names \<and> fileName \<in> set names \<and>
         extractTextFromPdf demo_env (path_join demo_env (DOCUMENTS_DIR demo_env) fileName) = Returns t \<and>
         documents demo_call_a = chunkText demo_env t \<and>
         length (ids demo_call_a) = length (documents demo_call_a) \<and>
         length (metadatas demo_call_a) = length (documents demo_call_a) \<and>
         (\<forall>i<length (documents demo_call_a).
            ids demo_call_a ! i = fileName @ ''-'' @ string_of_nat i \<and>
            metadatas demo_call_a ! i = \<lparr>source = fileName, chunk_index = i\<rparr>)"
    by (rule T1 [THEN conjunct1, THEN mp]) (rule h1)
  have c2: "\<exists>names fileName t.
         readdir demo_env (DOCUMENTS_DIR demo_env) = Inr names \<and> fileName \<in> set names \<and>
         extractTextFromPdfXenova demo_env (path_join demo_env (DOCUMENTS_DIR demo_env) fileName) = Inr t \<and>
         documents demo_local_call_b = splitText demo_env splitter t \<and>
         length (ids demo_local_call_b) = length (documents demo_local_call_b) \<and>
         length (metadatas demo_local_call_b) = length (documents demo_local_call_b) \<and>
         (\<forall>i<length (documents demo_local_call_b).
            ids demo_local_call_b ! i = fileName @ ''-'' @ string_of_nat i \<and>
            metadatas demo_local_call_b ! i = \<lparr>source = fileName, chunk_index = i\<rparr>)"
    by (rule T1 [THEN conjunct2, THEN conjunct1, THEN mp]) (rule h2)
  have c3: "\<exists>b\<in>set (new_calls init_state (snd (ingestDocuments demo_env init_state))). \<exists>t.
         extractTextFromPdf demo_env (path_join demo_env (DOCUMENTS_DIR demo_env) ''b.pdf'') = Returns t \<and>
         documents b = chunkText demo_env t \<and>
         length (ids b) = length (documents b) \<and> length (metadatas b) = length (documents b) \<and>
         (\<forall>i<length (documents b).
            ids b ! i = ''b.pdf'' @ ''-'' @ string_of_nat i \<and>
            metadatas b ! i = \<lparr>source = ''b.pdf'', chunk_index = i\<rparr>)"
    by (rule T1 [THEN conjunct2, THEN conjunct2, THEN conjunct1, THEN mp])
       (simp add: r e1 demo_first_run)
  have c4: "\<exists>b\<in>set (new_calls init_state (snd (ingestDocumentsXenova demo_env init_state))).
         documents b = splitText demo_env splitter ''Hello world'' \<and>
         length (ids b) = length (documents b) \<and> length (metadatas b) = length (documents b) \<and>
         (\<forall>i<length (documents b).
            ids b ! i = ''a.pdf'' @ ''-'' @ string_of_nat i \<and>
            metadatas b ! i = \<lparr>source = ''a.pdf'', chunk_index = i\<rparr>)"
    by (rule T2 [THEN conjunct2, THEN conjunct2, THEN conjunct2, THEN mp])
       (simp add: r e1 x demo_first_run)
  from h1 c1 h2 c2 demo_first_run(1) c3 demo_first_run(2) c4 show ?thesis
    by (intro conjI)
qed

section \<open>The chat route handler: theorems\<close>

text \<open>
  C8, as amended. A chat request whose body parses to a JSON value other than \<^verbatim>\<open>null\<close> and
  has no \<^verbatim>\<open>query\<close>, or the empty string as \<^verbatim>\<open>query\<close>, is answered with status 400. A
  request whose body does not parse (an absent body included) or is \<^verbatim>\<open>null\<close> is answered
  by the catch block with status 500. In each of these cases the RAG pipeline, the only path
  to embedding, retrieval and generation, is not called.
\<close>

theorem chat_missing_query_response:
  "(req_json c = Inr (JObj kvs)
      \<and> (map_of (rev kvs) ''query'' = None \<or> map_of (rev kvs) ''query'' = Some (JStr '''')) \<longrightarrow>
    POST c = (JsonResponse 400 [(''error'', ''Missing query parameter in request body.'')], []))
   \<and> (req_json c = Inr body \<and> body \<noteq> JNull \<and> (\<forall>fields. body \<noteq> JObj fields) \<longrightarrow>
    POST c = (JsonResponse 400 [(''error'', ''Missing query parameter in request body.'')], []))
   \<and> (req_json c = Inl err \<longrightarrow>
    POST c = (JsonResponse 500
                [(''error'', ''An error occurred during Xenova RAG processing.''),
                 (''details'', err)], []))
   \<and> (req_json c = Inr JNull \<longrightarrow>
    POST c = (JsonResponse 500
                [(''error'', ''An error occurred during Xenova RAG processing.''),
                 (''details'',
                  ''Cannot destructure property 'query' of '(intermediate value)' as it is null.'')],
              []))"
proof (intro conjI impI)
  assume "req_json c = Inr (JObj kvs)
      \<and> (map_of (rev kvs) ''query'' = None \<or> map_of (rev kvs) ''query'' = Some (JStr ''''))"
  then show "POST c = (JsonResponse 400 [(''error'', ''Missing query parameter in request body.'')], [])"
    by (auto simp: POST_def destructure_query_def missing_query_def)
next
  assume "req_json c = Inr body \<and> body \<noteq> JNull \<and> (\<forall>fields. body \<noteq> JObj fields)"
  then show "POST c = (JsonResponse 400 [(''error'', ''Missing query parameter in request body.'')], [])"
    by (cases body) (auto simp: POST_def destructure_query_def missing_query_def)
next
  assume "req_json c = Inl err"
  then show "POST c = (JsonResponse 500
                [(''error'', ''An error occurred during Xenova RAG processing.''),
                 (''details'', err)], [])"
    by (simp add: POST_def server_error_def)
next
  assume "req_json c = Inr JNull"
  then show "POST c = (JsonResponse 500
                [(''error'', ''An error occurred during Xenova RAG processing.''),
                 (''details'',
                  ''Cannot destructure property 'query' of '(intermediate value)' as it is null.'')],
              [])"
    by (simp add: POST_def destructure_query_def server_error_def)
qed

theorem chat_missing_query_response_witness:
  "POST (chat_example (JObj [(''query'', JStr '''')])) =
     (JsonResponse 400 [(''error'', ''Missing query parameter in request body.'')], [])
   \<and> POST (chat_example (JObj [(''user'', JStr ''x'')])) =
     (JsonResponse 400 [(''error'', ''Missing query parameter in request body.'')], [])
   \<and> POST (chat_example (JArr [JStr ''query''])) =
     (JsonResponse 400 [(''error'', ''Missing query parameter in request body.'')], [])
   \<and> POST chat_no_body =
     (JsonResponse 500
        [(''error'', ''An error occurred during Xenova RAG processing.''),
         (''details'', ''Unexpected end of JSON input'')], [])
   \<and> POST (chat_example JNull) =
     (JsonResponse 500
        [(''error'', ''An error occurred during Xenova RAG processing.''),
         (''details'',
          ''Cannot destructure property 'query' of '(intermediate value)' as it is null.'')],
      [])"
proof -
  have a: "POST (chat_example (JObj [(''query'', JStr '''')])) =
     (JsonResponse 400 [(''error'', ''Missing query parameter in request body.'')], [])"
    by (rule chat_missing_query_response
              [of "chat_example (JObj [(''query'', JStr '''')])" "[(''query'', JStr '''')]",
               THEN conjunct1, THEN mp])
       (simp add: chat_example_def)
  have b: "POST (chat_example (JObj [(''user'', JStr ''x'')])) =
     (JsonResponse 400 [(''error'', ''Missing query parameter in request body.'')], [])"
    by (rule chat_missing_query_response
              [of "chat_example (JObj [(''user'', JStr ''x'')])" "[(''user'', JStr ''x'')]",
               THEN conjunct1, THEN mp])
       (simp add: chat_example_def)
  have c: "POST (chat_example (JArr [JStr ''query''])) =
     (JsonResponse 400 [(''error'', ''Missing query parameter in request body.'')], [])"
    by (rule chat_missing_query_response
              [of "chat_example (JArr [JStr ''query''])" _ "JArr [JStr ''query'']",
               THEN conjunct2, THEN conjunct1, THEN mp])
       (simp add: chat_example_def)
  have d: "POST chat_no_body =
     (JsonResponse 500
        [(''error'', ''An error occurred during Xenova RAG processing.''),
         (''details'', ''Unexpected end of JSON input'')], [])"
    by (rule chat_missing_query_response
              [of chat_no_body _ _ "''Unexpected end of JSON input''",
               THEN conjunct2, THEN conjunct2, THEN conjunct1, THEN mp])
       (simp add: chat_no_body_def)
  have e: "POST (chat_example JNull) =
     (JsonResponse 500
        [(''error'', ''An error occurred during Xenova RAG processing.''),
         (''details'',
          ''Cannot destructure property 'query' of '(intermediate value)' as it is null.'')],
      [])"
    by (rule chat_missing_query_response
              [of "chat_example JNull", THEN conjunct2, THEN conjunct2, THEN conjunct2, THEN mp])
       (simp add: chat_example_def)
  from a b c d e show ?thesis by (intro conjI)
qed

text \<open>
  The claim as stated fails for a request without a body and for the body \<^verbatim>\<open>null\<close>: neither
  has a \<^verbatim>\<open>query\<close>, and both are answered with status 500, not 400.
\<close>

theorem chat_missing_query_counterexample:
  "req_json chat_no_body = Inl ''Unexpected end of JSON input''
   \<and> POST chat_no_body =
     (JsonResponse 500
        [(''error'', ''An error occurred during Xenova RAG processing.''),
         (''details'', ''Unexpected end of JSON input'')], [])
   \<and> req_json (chat_example JNull) = Inr JNull
   \<and> POST (chat_example JNull) =
     (JsonResponse 500
        [(''error'', ''An error occurred during Xenova RAG processing.''),
         (''details'',
          ''Cannot destructure property 'query' of '(intermediate value)' as it is null.'')],
      [])"
  by (simp add: POST_def destructure_query_def server_error_def chat_no_body_def chat_example_def)

end
